theory Spec2Isabelle
  imports Main
begin

section \<open>JavaScript values as the dashboard meets them\<close>

text \<open>
  The component of \<^verbatim>\<open>src/frontend/src/App.js\<close> works on the JSON bodies of two HTTP
  responses.  A JavaScript string is the list of its UTF-16 code units, each a natural
  number below 65536, so that \<^verbatim>\<open>length\<close> and indexing count what JavaScript counts; \<open>js\<close>
  turns a literal of this text into such a string.  A JSON value is a \<open>json\<close>; a
  JavaScript value that may also be \<^verbatim>\<open>undefined\<close> (the result of reading a property that
  is not there) is a \<open>json option\<close>, with \<open>None\<close> for \<^verbatim>\<open>undefined\<close>.  An object is the
  list of its own properties in enumeration order, with distinct keys, as
  \<^verbatim>\<open>JSON.parse\<close> builds it.  Numbers are the integers of the HTTP contract.
\<close>

type_synonym jsstring = "nat list"

definition js :: "string \<Rightarrow> jsstring" where
  "js s = map of_char s"

datatype json =
    JNull
  | JBool bool
  | JNum int
  | JStr jsstring
  | JArr "json list"
  | JObj "(jsstring \<times> json) list"

type_synonym jsval = "json option"

datatype exn = AxiosError jsstring | TypeError jsstring

fun message :: "exn \<Rightarrow> jsstring" where
  "message (AxiosError m) = m"
| "message (TypeError m) = m"

text \<open>Truthiness, as \<^verbatim>\<open>if (x)\<close>, \<^verbatim>\<open>x && y\<close> and \<^verbatim>\<open>x || y\<close> test it.\<close>

fun truthy :: "json \<Rightarrow> bool" where
  "truthy JNull = False"
| "truthy (JBool b) = b"
| "truthy (JNum n) = (n \<noteq> 0)"
| "truthy (JStr s) = (s \<noteq> [])"
| "truthy (JArr xs) = True"
| "truthy (JObj kvs) = True"

text \<open>\<^verbatim>\<open>v || d\<close> for a default \<open>d\<close> that is itself a JSON value.\<close>

fun or_else :: "jsval \<Rightarrow> json \<Rightarrow> json" where
  "or_else None d = d"
| "or_else (Some v) d = (if truthy v then v else d)"

text \<open>
  The wording of the engine's TypeErrors (V8's is used; no property below depends on
  the wording).
\<close>

definition cannot_read :: "jsstring \<Rightarrow> jsstring" where
  "cannot_read k =
     js ''Cannot read properties of null (reading '' @ [39] @ k @ [39] @ js '')''"

definition not_a_function :: "string \<Rightarrow> jsstring" where
  "not_a_function what = js what @ js '' is not a function''"

definition cannot_convert :: jsstring where
  "cannot_convert = js ''Cannot convert object to primitive value''"

text \<open>
  \<^verbatim>\<open>v.k\<close> for the property names the source reads: \<^verbatim>\<open>threats\<close>, \<^verbatim>\<open>length\<close>,
  \<^verbatim>\<open>severity\<close>, \<^verbatim>\<open>timestamp\<close>, \<^verbatim>\<open>type\<close>, \<^verbatim>\<open>description\<close>, \<^verbatim>\<open>details\<close> and the four
  counters.  None of them is an array index, and \<^verbatim>\<open>length\<close> is the only one that an
  array or a string has of its own.  Reading a property of \<^verbatim>\<open>null\<close> throws.
\<close>

fun get_field :: "json \<Rightarrow> jsstring \<Rightarrow> exn + jsval" where
  "get_field JNull k = Inl (TypeError (cannot_read k))"
| "get_field (JObj kvs) k = Inr (map_of kvs k)"
| "get_field (JArr xs) k =
     Inr (if k = js ''length'' then Some (JNum (int (length xs))) else None)"
| "get_field (JStr s) k =
     Inr (if k = js ''length'' then Some (JNum (int (length s))) else None)"
| "get_field (JBool b) k = Inr None"
| "get_field (JNum n) k = Inr None"

subsection \<open>Strings\<close>

text \<open>
  \<^verbatim>\<open>toLowerCase\<close> and \<^verbatim>\<open>toUpperCase\<close>.  On a string of ASCII code units they map the
  letters \<^verbatim>\<open>A\<close> to \<^verbatim>\<open>Z\<close> and \<^verbatim>\<open>a\<close> to \<^verbatim>\<open>z\<close> onto each other and leave every other unit as
  it is.  On a string with a unit outside ASCII they follow the Unicode case tables of
  the engine, which are not part of the source and are taken as a parameter.
\<close>

record unicode =
  lower_table :: "jsstring \<Rightarrow> jsstring"
  upper_table :: "jsstring \<Rightarrow> jsstring"

definition ascii :: "jsstring \<Rightarrow> bool" where
  "ascii s = list_all (\<lambda>c. c < 128) s"

definition lower_unit :: "nat \<Rightarrow> nat" where
  "lower_unit c = (if 65 \<le> c \<and> c \<le> 90 then c + 32 else c)"

definition upper_unit :: "nat \<Rightarrow> nat" where
  "upper_unit c = (if 97 \<le> c \<and> c \<le> 122 then c - 32 else c)"

definition toLowerCase :: "unicode \<Rightarrow> jsstring \<Rightarrow> jsstring" where
  "toLowerCase u s = (if ascii s then map lower_unit s else lower_table u s)"

definition toUpperCase :: "unicode \<Rightarrow> jsstring \<Rightarrow> jsstring" where
  "toUpperCase u s = (if ascii s then map upper_unit s else upper_table u s)"

text \<open>
  \<^verbatim>\<open>v?.method()\<close> for a string method: \<^verbatim>\<open>undefined\<close> when \<open>v\<close> is \<^verbatim>\<open>undefined\<close> or
  \<^verbatim>\<open>null\<close>, the method's result on a string, and a TypeError on any other value, which
  has no such method.
\<close>

fun optional_method :: "string \<Rightarrow> (jsstring \<Rightarrow> jsstring) \<Rightarrow> jsval \<Rightarrow> exn + jsstring option" where
  "optional_method name f None = Inr None"
| "optional_method name f (Some JNull) = Inr None"
| "optional_method name f (Some (JStr s)) = Inr (Some (f s))"
| "optional_method name f (Some v) = Inl (TypeError (not_a_function name))"

text \<open>The decimal numeral of an array index, the key \<^verbatim>\<open>Object.entries\<close> gives it.\<close>

fun decimal :: "nat \<Rightarrow> jsstring" where
  "decimal n = (if n < 10 then [48 + n] else decimal (n div 10) @ [48 + n mod 10])"

declare decimal.simps [simp del]

text \<open>
  \<^verbatim>\<open>Object.entries(v)\<close>: the properties of an object, the indexed elements of an array,
  the indexed code units of a string, nothing for a number or a boolean, and a
  TypeError for \<^verbatim>\<open>null\<close>.
\<close>

fun Object_entries :: "json \<Rightarrow> exn + (jsstring \<times> json) list" where
  "Object_entries JNull =
     Inl (TypeError (js ''Cannot convert undefined or null to object''))"
| "Object_entries (JObj kvs) = Inr kvs"
| "Object_entries (JArr xs) = Inr (zip (map decimal [0..<length xs]) xs)"
| "Object_entries (JStr s) = Inr (zip (map decimal [0..<length s]) (map (\<lambda>c. JStr [c]) s))"
| "Object_entries (JBool b) = Inr []"
| "Object_entries (JNum n) = Inr []"

text \<open>
  Whether converting a value to a primitive throws, as \<^verbatim>\<open>new Date(v)\<close> does for an
  object.  A parsed object inherits \<^verbatim>\<open>valueOf\<close>, which returns the object itself, and
  \<^verbatim>\<open>toString\<close>, which returns a string, unless it has a property \<^verbatim>\<open>toString\<close> of its
  own: that is a JSON value, not callable, and the conversion throws a TypeError.  The
  \<^verbatim>\<open>toString\<close> of an array joins the strings of its elements, skipping \<^verbatim>\<open>null\<close>.
\<close>

fun toPrimitive_throws :: "json \<Rightarrow> bool" where
  "toPrimitive_throws (JObj kvs) = (js ''toString'' \<in> fst ` set kvs)"
| "toPrimitive_throws (JArr xs) = (\<exists>x \<in> set xs. toPrimitive_throws x)"
| "toPrimitive_throws JNull = False"
| "toPrimitive_throws (JBool b) = False"
| "toPrimitive_throws (JNum n) = False"
| "toPrimitive_throws (JStr s) = False"

section \<open>The UI state\<close>

text \<open>
  The four \<^verbatim>\<open>useState\<close> slots of \<^verbatim>\<open>App\<close>.  \<open>threats\<close> and \<open>summary\<close> hold whatever
  JSON value their setters stored last; \<open>loading\<close> is only ever set to \<^verbatim>\<open>true\<close> or
  \<^verbatim>\<open>false\<close>; \<open>error\<close> is \<^verbatim>\<open>null\<close> (\<open>None\<close>) or a string.
\<close>

record ui_state =
  threats :: json
  summary :: json
  loading :: bool
  error :: "jsstring option"

definition init_ui :: ui_state where
  "init_ui = \<lparr>threats = JArr [], summary = JNull, loading = True, error = None\<rparr>"

definition API_BASE :: jsstring where
  "API_BASE = js ''http://localhost:8001''"

section \<open>The fetch cycle\<close>

text \<open>
  A promise settles as fulfilled or rejected.  \<^verbatim>\<open>axios.get\<close> fulfils with a response
  whose \<^verbatim>\<open>data\<close> is the parsed body (the value carried by \<open>Fulfilled\<close>) and rejects, on
  a transport error or a status outside 2xx, with an error that has a \<^verbatim>\<open>message\<close>.
\<close>

datatype 'a settled = Fulfilled 'a | Rejected exn

datatype request = ThreatsRequest | SummaryRequest

text \<open>The address that \<^verbatim>\<open>axios.get\<close> is called with for each request.\<close>

fun url :: "request \<Rightarrow> jsstring" where
  "url ThreatsRequest = API_BASE @ js ''/api/threats''"
| "url SummaryRequest = API_BASE @ js ''/api/dashboard/summary''"

text \<open>
  What one cycle of \<^verbatim>\<open>fetchData\<close> receives: the outcome of each of its two requests and,
  for the case that both are rejected, which rejection came first.
\<close>

record responses =
  threatsRes :: "json settled"
  summaryRes :: "json settled"
  first_rejected :: request

text \<open>
  \<^verbatim>\<open>Promise.all([threats, summary])\<close>: fulfilled with both values when both are
  fulfilled, rejected with the first rejection otherwise.
\<close>

definition Promise_all :: "responses \<Rightarrow> (json \<times> json) settled" where
  "Promise_all r =
     (case (threatsRes r, summaryRes r) of
        (Fulfilled td, Fulfilled sd) \<Rightarrow> Fulfilled (td, sd)
      | (Rejected e, Fulfilled sd) \<Rightarrow> Rejected e
      | (Fulfilled td, Rejected e) \<Rightarrow> Rejected e
      | (Rejected e1, Rejected e2) \<Rightarrow>
          Rejected (if first_rejected r = ThreatsRequest then e1 else e2))"

text \<open>
  \<^verbatim>\<open>fetchData\<close> up to its \<^verbatim>\<open>await\<close>.  First \<^verbatim>\<open>setLoading(true); setError(null)\<close>:
\<close>

definition fetchData_begin :: "ui_state \<Rightarrow> ui_state" where
  "fetchData_begin s = s\<lparr>loading := True, error := None\<rparr>"

text \<open>
  then the array \<^verbatim>\<open>[axios.get(...), axios.get(...)]\<close> is built, which calls
  \<^verbatim>\<open>axios.get\<close> twice, for the threats and then for the summary, before
  \<^verbatim>\<open>Promise.all\<close> is awaited: both requests are issued before any response is looked at.
\<close>

definition fetchData_requests :: "request list" where
  "fetchData_requests = [ThreatsRequest, SummaryRequest]"

text \<open>
  The rest of the \<^verbatim>\<open>try\<close> block: the \<^verbatim>\<open>await\<close> throws the rejection, reading
  \<^verbatim>\<open>threatsRes.data.threats\<close> throws when the body is \<^verbatim>\<open>null\<close>, and otherwise the block
  ends with the two values it passes to \<^verbatim>\<open>setThreats\<close> and \<^verbatim>\<open>setSummary\<close>.
\<close>

definition try_block :: "responses \<Rightarrow> exn + (json \<times> json)" where
  "try_block r =
     (case Promise_all r of
        Rejected e \<Rightarrow> Inl e
      | Fulfilled (td, sd) \<Rightarrow>
          (case get_field td (js ''threats'') of
             Inl e \<Rightarrow> Inl e
           | Inr v \<Rightarrow> Inr (or_else v (JArr []), or_else (Some sd) (JObj []))))"

text \<open>
  \<^verbatim>\<open>fetchData\<close> after its \<^verbatim>\<open>await\<close>: the setters of the \<^verbatim>\<open>try\<close> block or the
  \<^verbatim>\<open>setError\<close> of the \<^verbatim>\<open>catch\<close>, then the \<^verbatim>\<open>setLoading(false)\<close> of the \<^verbatim>\<open>finally\<close>.
\<close>

definition fetchData_resume :: "responses \<Rightarrow> ui_state \<Rightarrow> ui_state" where
  "fetchData_resume r s =
     (case try_block r of
        Inr (t, m) \<Rightarrow> s\<lparr>threats := t, summary := m\<rparr>
      | Inl err \<Rightarrow> s\<lparr>error := Some (js ''Failed to fetch data: '' @ message err)\<rparr>)
     \<lparr>loading := False\<rparr>"

text \<open>What the \<^verbatim>\<open>catch\<close> passes to \<^verbatim>\<open>console.error\<close>.\<close>

definition fetchData_logged :: "responses \<Rightarrow> exn list" where
  "fetchData_logged r = (case try_block r of Inl err \<Rightarrow> [err] | Inr p \<Rightarrow> [])"

text \<open>A whole cycle during which no other cycle starts or settles.\<close>

definition fetchData :: "responses \<Rightarrow> ui_state \<Rightarrow> ui_state" where
  "fetchData r s = fetchData_resume r (fetchData_begin s)"

section \<open>The polling loop\<close>

text \<open>
  The effect of \<^verbatim>\<open>useEffect(..., [])\<close> runs once after the first render: it calls
  \<^verbatim>\<open>fetchData()\<close> and arms \<^verbatim>\<open>setInterval(fetchData, 5000)\<close>; its cleanup, run at
  teardown, is \<^verbatim>\<open>clearInterval(interval)\<close>.  The state of the whole loop is the UI state,
  the phase of the component's life, whether the interval is armed, the number of
  \<^verbatim>\<open>fetchData\<close> calls suspended at their \<^verbatim>\<open>await\<close>, the requests sent so far, what was
  written to the console, and the number of state updates that React has applied to
  the component.  React renders the component again only in response to such an
  update.

  The source has no teardown guard: a suspended \<^verbatim>\<open>fetchData\<close> that resumes after the
  cleanup still runs, logs its failure and calls its setters.  The setters are React's:
  once the component is unmounted its state is gone, and React drops the call, so that
  no slot changes and nothing is rendered.
\<close>

datatype phase = Created | Mounted | Unmounted

record sys =
  ui :: ui_state
  phase :: phase
  interval :: bool
  in_flight :: nat
  sent :: "request list"
  console :: "exn list"
  updates :: nat

datatype event = Mount | Tick | Settle responses | Unmount

definition init_sys :: sys where
  "init_sys = \<lparr>ui = init_ui, phase = Created, interval = False, in_flight = 0,
               sent = [], console = [], updates = 0\<rparr>"

text \<open>
  React's part in a batch of setter calls: it is applied to a mounted component, and
  dropped otherwise.
\<close>

definition set_state :: "(ui_state \<Rightarrow> ui_state) \<Rightarrow> sys \<Rightarrow> sys" where
  "set_state f s =
     (if phase s = Unmounted then s else s\<lparr>ui := f (ui s), updates := updates s + 1\<rparr>)"

text \<open>
  A call of \<^verbatim>\<open>fetchData\<close> runs to its \<^verbatim>\<open>await\<close>, having sent its two requests, and is
  suspended there.
\<close>

definition start_cycle :: "sys \<Rightarrow> sys" where
  "start_cycle s =
     (set_state fetchData_begin s)
       \<lparr>sent := sent s @ fetchData_requests, in_flight := in_flight s + 1\<rparr>"

fun step :: "event \<Rightarrow> sys \<Rightarrow> sys" where
  "step Mount s =
     (if phase s = Created then (start_cycle s)\<lparr>phase := Mounted, interval := True\<rparr> else s)"
| "step Tick s = (if interval s then start_cycle s else s)"
| "step (Settle r) s =
     (if 0 < in_flight s
      then (set_state (fetchData_resume r) s)
             \<lparr>in_flight := in_flight s - 1, console := console s @ fetchData_logged r\<rparr>
      else s)"
| "step Unmount s =
     (case phase s of
        Created \<Rightarrow> s\<lparr>phase := Unmounted\<rparr>
      | Mounted \<Rightarrow> s\<lparr>phase := Unmounted, interval := False\<rparr>
      | Unmounted \<Rightarrow> s)"

definition run_from :: "sys \<Rightarrow> event list \<Rightarrow> sys" where
  "run_from s evs = foldl (\<lambda>s e. step e s) s evs"

definition run :: "event list \<Rightarrow> sys" where
  "run evs = run_from init_sys evs"

section \<open>The Presenter\<close>

text \<open>
  What rendering reads from outside the state: the text that
  \<^verbatim>\<open>new Date().toLocaleTimeString()\<close> returns at the moment of rendering, and the
  browser's \<^verbatim>\<open>new Date(v).toLocaleString()\<close>, which depends on its locale and time zone.
\<close>

record env =
  clock_text :: jsstring
  toLocaleString :: "jsval \<Rightarrow> jsstring"

text \<open>
  \<^verbatim>\<open>c && x\<close> as a child of an element: the value \<open>c\<close> itself when it is falsy, the
  element \<open>x\<close> otherwise.
\<close>

datatype 'a guarded = Skipped jsval | Shown 'a

text \<open>
  The element tree that \<^verbatim>\<open>App\<close> returns, without its constant styling.  A details
  entry \<open>(k, v)\<close> stands for \<^verbatim>\<open><strong>k:</strong> JSON.stringify(v)\<close>.
\<close>

record threat_card =
  badge_background :: jsstring
  badge_label :: jsstring
  timestamp_label :: jsstring
  type_label :: jsval
  description_text :: jsval
  details_block :: "(jsstring \<times> json) list guarded"

record counters =
  total_threats :: json
  critical_threats :: json
  blocked_connections :: json
  monitored_processes :: json

datatype threat_list = NoThreatsBanner | Cards "threat_card list"

record dashboard =
  last_updated :: jsstring
  refreshing :: bool
  summary_grid :: "counters guarded"
  threat_count :: jsval
  threat_list :: threat_list

datatype view = ErrorView jsstring jsstring | LoadingView | DashboardView dashboard

text \<open>
  \<^verbatim>\<open>new Date(timestamp).toLocaleString()\<close>: the constructor converts an object to a
  primitive first, which can throw; \<^verbatim>\<open>undefined\<close> and every primitive give a date,
  possibly an invalid one, and \<^verbatim>\<open>toLocaleString\<close> gives its text.
\<close>

fun date_throws :: "jsval \<Rightarrow> bool" where
  "date_throws None = False"
| "date_throws (Some v) = toPrimitive_throws v"

definition formatTimestamp :: "env \<Rightarrow> jsval \<Rightarrow> exn + jsstring" where
  "formatTimestamp e timestamp =
     (if date_throws timestamp then Inl (TypeError cannot_convert)
      else Inr (toLocaleString e timestamp))"

definition getSeverityColor :: "unicode \<Rightarrow> jsval \<Rightarrow> exn + jsstring" where
  "getSeverityColor u severity =
     (case optional_method ''severity?.toLowerCase'' (toLowerCase u) severity of
        Inl err \<Rightarrow> Inl err
      | Inr l \<Rightarrow>
          Inr (if l = Some (js ''critical'') then js ''#ff4444''
               else if l = Some (js ''high'') then js ''#ff8800''
               else if l = Some (js ''medium'') then js ''#ffaa00''
               else if l = Some (js ''low'') then js ''#88aa00''
               else js ''#888888''))"

text \<open>\<^verbatim>\<open>threat.severity?.toUpperCase() || 'UNKNOWN'\<close>, given \<^verbatim>\<open>threat.severity\<close>.\<close>

definition severity_label :: "unicode \<Rightarrow> jsval \<Rightarrow> exn + jsstring" where
  "severity_label u severity =
     (case optional_method ''threat.severity?.toUpperCase'' (toUpperCase u) severity of
        Inl err \<Rightarrow> Inl err
      | Inr None \<Rightarrow> Inr (js ''UNKNOWN'')
      | Inr (Some up) \<Rightarrow> Inr (if up \<noteq> [] then up else js ''UNKNOWN''))"

text \<open>\<^verbatim>\<open>threat.details && (<div>{Object.entries(threat.details).map(...)}</div>)\<close>.\<close>

definition render_details :: "jsval \<Rightarrow> exn + (jsstring \<times> json) list guarded" where
  "render_details details =
     (case details of
        None \<Rightarrow> Inr (Skipped None)
      | Some d \<Rightarrow>
          if truthy d
          then (case Object_entries d of Inl err \<Rightarrow> Inl err | Inr kvs \<Rightarrow> Inr (Shown kvs))
          else Inr (Skipped (Some d)))"

text \<open>
  The body of \<^verbatim>\<open>threats.map((threat, index) => ...)\<close>: one card, its expressions
  evaluated in the order of the source.
\<close>

definition render_threat :: "unicode \<Rightarrow> env \<Rightarrow> json \<Rightarrow> exn + threat_card" where
  "render_threat u e threat =
     (case get_field threat (js ''severity'') of
        Inl err \<Rightarrow> Inl err
      | Inr severity \<Rightarrow>
     (case getSeverityColor u severity of
        Inl err \<Rightarrow> Inl err
      | Inr color \<Rightarrow>
     (case severity_label u severity of
        Inl err \<Rightarrow> Inl err
      | Inr label \<Rightarrow>
     (case get_field threat (js ''timestamp'') of
        Inl err \<Rightarrow> Inl err
      | Inr timestamp \<Rightarrow>
     (case formatTimestamp e timestamp of
        Inl err \<Rightarrow> Inl err
      | Inr formatted \<Rightarrow>
     (case get_field threat (js ''type'') of
        Inl err \<Rightarrow> Inl err
      | Inr ty \<Rightarrow>
     (case get_field threat (js ''description'') of
        Inl err \<Rightarrow> Inl err
      | Inr description \<Rightarrow>
     (case get_field threat (js ''details'') of
        Inl err \<Rightarrow> Inl err
      | Inr details \<Rightarrow>
     (case render_details details of
        Inl err \<Rightarrow> Inl err
      | Inr block \<Rightarrow>
          Inr \<lparr>badge_background = color, badge_label = label,
               timestamp_label = formatted,
               type_label = ty, description_text = description,
               details_block = block\<rparr>)))))))))"

text \<open>\<^verbatim>\<open>xs.map(f)\<close> for an \<open>f\<close> that may throw: the first exception ends the loop.\<close>

fun map_exn :: "('a \<Rightarrow> exn + 'b) \<Rightarrow> 'a list \<Rightarrow> exn + 'b list" where
  "map_exn f [] = Inr []"
| "map_exn f (x # xs) =
     (case f x of
        Inl err \<Rightarrow> Inl err
      | Inr y \<Rightarrow> (case map_exn f xs of Inl err \<Rightarrow> Inl err | Inr ys \<Rightarrow> Inr (y # ys)))"

text \<open>\<^verbatim>\<open>summary.field || 0\<close> for a truthy \<open>summary\<close>, which is never \<^verbatim>\<open>null\<close>.\<close>

definition counter :: "json \<Rightarrow> jsstring \<Rightarrow> exn + json" where
  "counter s k = (case get_field s k of Inl err \<Rightarrow> Inl err | Inr v \<Rightarrow> Inr (or_else v (JNum 0)))"

definition render_summary :: "json \<Rightarrow> exn + counters guarded" where
  "render_summary s =
     (if truthy s
      then
        (case counter s (js ''total_threats'') of Inl err \<Rightarrow> Inl err | Inr t \<Rightarrow>
        (case counter s (js ''critical_threats'') of Inl err \<Rightarrow> Inl err | Inr c \<Rightarrow>
        (case counter s (js ''blocked_connections'') of Inl err \<Rightarrow> Inl err | Inr b \<Rightarrow>
        (case counter s (js ''monitored_processes'') of Inl err \<Rightarrow> Inl err | Inr p \<Rightarrow>
           Inr (Shown \<lparr>total_threats = t, critical_threats = c,
                       blocked_connections = b, monitored_processes = p\<rparr>)))))
      else Inr (Skipped (Some s)))"

text \<open>\<^verbatim>\<open>threats.length === 0\<close>.\<close>

definition length_is_zero :: "json \<Rightarrow> exn + bool" where
  "length_is_zero ts =
     (case get_field ts (js ''length'') of
        Inl err \<Rightarrow> Inl err
      | Inr n \<Rightarrow> Inr (n = Some (JNum 0)))"

text \<open>
  \<^verbatim>\<open>threats.length === 0 ? banner : threats.map(...)\<close>; only an array has a
  \<^verbatim>\<open>map\<close> method.
\<close>

definition render_threats :: "unicode \<Rightarrow> env \<Rightarrow> json \<Rightarrow> exn + threat_list" where
  "render_threats u e ts =
     (case length_is_zero ts of
        Inl err \<Rightarrow> Inl err
      | Inr True \<Rightarrow> Inr NoThreatsBanner
      | Inr False \<Rightarrow>
          (case ts of
             JArr xs \<Rightarrow>
               (case map_exn (render_threat u e) xs of
                  Inl err \<Rightarrow> Inl err
                | Inr cards \<Rightarrow> Inr (Cards cards))
           | _ \<Rightarrow> Inl (TypeError (not_a_function ''threats.map''))))"

text \<open>The third \<^verbatim>\<open>return\<close> of \<^verbatim>\<open>App\<close> (lines 74 to 150).\<close>

definition render_dashboard :: "unicode \<Rightarrow> env \<Rightarrow> ui_state \<Rightarrow> exn + view" where
  "render_dashboard u e s =
     (case render_summary (summary s) of
        Inl err \<Rightarrow> Inl err
      | Inr g \<Rightarrow>
     (case get_field (threats s) (js ''length'') of
        Inl err \<Rightarrow> Inl err
      | Inr n \<Rightarrow>
     (case render_threats u e (threats s) of
        Inl err \<Rightarrow> Inl err
      | Inr l \<Rightarrow>
          Inr (DashboardView
                 \<lparr>last_updated = clock_text e, refreshing = loading s,
                  summary_grid = g, threat_count = n, threat_list = l\<rparr>))))"

text \<open>\<^verbatim>\<open>if (error)\<close>: \<^verbatim>\<open>null\<close> and the empty string are falsy.\<close>

fun error_shown :: "jsstring option \<Rightarrow> bool" where
  "error_shown None = False"
| "error_shown (Some m) = (m \<noteq> [])"

text \<open>\<^verbatim>\<open>loading && threats.length === 0\<close>.\<close>

definition first_load :: "ui_state \<Rightarrow> exn + bool" where
  "first_load s = (if loading s then length_is_zero (threats s) else Inr False)"

definition App :: "unicode \<Rightarrow> env \<Rightarrow> ui_state \<Rightarrow> exn + view" where
  "App u e s =
     (if error_shown (error s) then Inr (ErrorView (the (error s)) API_BASE)
      else
        (case first_load s of
           Inl err \<Rightarrow> Inl err
         | Inr True \<Rightarrow> Inr LoadingView
         | Inr False \<Rightarrow> render_dashboard u e s))"

section \<open>The dashboard as the specification describes it\<close>

text \<open>
  Section 4.4 of the specification describes the dashboard of a state in words: the
  summary counters with absent fields shown as zero, a header with the number of
  threats, a banner when there are none and otherwise one card for each threat in the
  order received, each with its severity badge (text and colour), its formatted
  timestamp, its type, its description and its optional details.  The definitions of
  this section follow these words and have no exceptional cases; they are what the
  functions of the Presenter, which follow the source, are compared with.
\<close>

text \<open>A property read that gives \<^verbatim>\<open>undefined\<close> where there is nothing to read.\<close>

definition field_of :: "json \<Rightarrow> jsstring \<Rightarrow> jsval" where
  "field_of v k = (case get_field v k of Inl err \<Rightarrow> None | Inr x \<Rightarrow> x)"

text \<open>The colour keyed by the four named severities, matched without regard to case.\<close>

definition spec_colour :: "unicode \<Rightarrow> jsval \<Rightarrow> jsstring" where
  "spec_colour u severity =
     (case severity of
        Some (JStr s) \<Rightarrow>
          if toLowerCase u s = js ''critical'' then js ''#ff4444''
          else if toLowerCase u s = js ''high'' then js ''#ff8800''
          else if toLowerCase u s = js ''medium'' then js ''#ffaa00''
          else if toLowerCase u s = js ''low'' then js ''#88aa00''
          else js ''#888888''
      | _ \<Rightarrow> js ''#888888'')"

text \<open>The badge text: the severity in upper case, or the placeholder when there is none.\<close>

definition spec_badge :: "unicode \<Rightarrow> jsval \<Rightarrow> jsstring" where
  "spec_badge u severity =
     (case severity of
        Some (JStr s) \<Rightarrow> if toUpperCase u s = [] then js ''UNKNOWN'' else toUpperCase u s
      | _ \<Rightarrow> js ''UNKNOWN'')"

text \<open>The optional details: a block of the entries when there are details.\<close>

definition spec_details :: "jsval \<Rightarrow> (jsstring \<times> json) list guarded" where
  "spec_details details =
     (case details of
        None \<Rightarrow> Skipped None
      | Some d \<Rightarrow>
          if truthy d
          then Shown (case Object_entries d of Inl err \<Rightarrow> [] | Inr kvs \<Rightarrow> kvs)
          else Skipped (Some d))"

definition spec_card :: "unicode \<Rightarrow> env \<Rightarrow> json \<Rightarrow> threat_card" where
  "spec_card u e t =
     \<lparr>badge_background = spec_colour u (field_of t (js ''severity'')),
      badge_label = spec_badge u (field_of t (js ''severity'')),
      timestamp_label = toLocaleString e (field_of t (js ''timestamp'')),
      type_label = field_of t (js ''type''),
      description_text = field_of t (js ''description''),
      details_block = spec_details (field_of t (js ''details''))\<rparr>"

text \<open>The summary counters, absent fields shown as zero; no grid without a summary.\<close>

definition spec_counters :: "json \<Rightarrow> counters guarded" where
  "spec_counters m =
     (if truthy m
      then Shown \<lparr>total_threats = or_else (field_of m (js ''total_threats'')) (JNum 0),
                  critical_threats = or_else (field_of m (js ''critical_threats'')) (JNum 0),
                  blocked_connections = or_else (field_of m (js ''blocked_connections'')) (JNum 0),
                  monitored_processes = or_else (field_of m (js ''monitored_processes'')) (JNum 0)\<rparr>
      else Skipped (Some m))"

fun elements :: "json \<Rightarrow> json list" where
  "elements (JArr xs) = xs"
| "elements v = []"

definition spec_dashboard :: "unicode \<Rightarrow> env \<Rightarrow> ui_state \<Rightarrow> dashboard" where
  "spec_dashboard u e s =
     \<lparr>last_updated = clock_text e,
      refreshing = loading s,
      summary_grid = spec_counters (summary s),
      threat_count = field_of (threats s) (js ''length''),
      threat_list =
        (if field_of (threats s) (js ''length'') = Some (JNum 0) then NoThreatsBanner
         else Cards (map (spec_card u e) (elements (threats s))))\<rparr>"

section \<open>States that follow the data model\<close>

text \<open>
  Section 3 of the specification types the UI state.  A threat is an object whose
  \<^verbatim>\<open>severity\<close>, \<^verbatim>\<open>type\<close> and \<^verbatim>\<open>description\<close> are strings when present, whose
  \<^verbatim>\<open>timestamp\<close> is a string or a number when present, and whose \<^verbatim>\<open>details\<close> is an object
  when present; \<open>threats\<close> is an array of threats.  The summary is absent
  (\<^verbatim>\<open>null\<close>) or an object whose four counters are numbers when present.  On these
  the rendering does not throw.
\<close>

fun text_or_absent :: "jsval \<Rightarrow> bool" where
  "text_or_absent None = True"
| "text_or_absent (Some JNull) = True"
| "text_or_absent (Some (JStr s)) = True"
| "text_or_absent (Some v) = False"

fun instant_or_absent :: "jsval \<Rightarrow> bool" where
  "instant_or_absent None = True"
| "instant_or_absent (Some JNull) = True"
| "instant_or_absent (Some (JStr s)) = True"
| "instant_or_absent (Some (JNum n)) = True"
| "instant_or_absent (Some v) = False"

fun mapping_or_absent :: "jsval \<Rightarrow> bool" where
  "mapping_or_absent None = True"
| "mapping_or_absent (Some JNull) = True"
| "mapping_or_absent (Some (JObj kvs)) = True"
| "mapping_or_absent (Some v) = False"

fun threat_ok :: "json \<Rightarrow> bool" where
  "threat_ok (JObj kvs) =
     (text_or_absent (map_of kvs (js ''severity''))
      \<and> text_or_absent (map_of kvs (js ''type''))
      \<and> text_or_absent (map_of kvs (js ''description''))
      \<and> instant_or_absent (map_of kvs (js ''timestamp''))
      \<and> mapping_or_absent (map_of kvs (js ''details'')))"
| "threat_ok v = False"

fun threats_ok :: "json \<Rightarrow> bool" where
  "threats_ok (JArr ts) = list_all threat_ok ts"
| "threats_ok v = False"




text \<open>Whether a value is an object, as the summary of the data model is.\<close>

fun is_object :: "json \<Rightarrow> bool" where
  "is_object (JObj kvs) = True"
| "is_object v = False"

section \<open>Sample inputs\<close>

text \<open>Concrete payloads, states and environments, on which the properties below are run.\<close>

definition sample_threat :: json where
  "sample_threat =
     JObj [(js ''severity'', JStr (js ''high'')), (js ''type'', JStr (js ''PortScan'')),
           (js ''description'', JStr (js ''scan'')),
           (js ''timestamp'', JStr (js ''2025-01-01T00:00:00Z''))]"

definition sample_ui :: ui_state where
  "sample_ui = \<lparr>threats = JArr [sample_threat],
                 summary = JObj [(js ''total_threats'', JNum 1)],
                 loading = True, error = None\<rparr>"

definition summary_fails :: responses where
  "summary_fails = \<lparr>threatsRes = Fulfilled (JObj [(js ''threats'', JArr [])]),
                     summaryRes = Rejected (AxiosError (js ''Network Error'')),
                     first_rejected = SummaryRequest\<rparr>"

definition both_succeed :: responses where
  "both_succeed = \<lparr>threatsRes = Fulfilled (JObj [(js ''threats'', JArr [sample_threat])]),
                    summaryRes = Fulfilled (JObj [(js ''total_threats'', JNum 1)]),
                    first_rejected = ThreatsRequest\<rparr>"

definition failed_ui :: ui_state where
  "failed_ui = \<lparr>threats = JArr [], summary = JNull, loading = False,
                 error = Some (js ''Failed to fetch data: Network Error'')\<rparr>"

definition sample_unicode :: unicode where
  "sample_unicode = \<lparr>lower_table = (\<lambda>s. s), upper_table = (\<lambda>s. s)\<rparr>"

definition sample_env :: env where
  "sample_env = \<lparr>clock_text = js ''10:00:00 AM'',
                  toLocaleString = (\<lambda>v. js ''1/1/2025, 12:00:00 AM'')\<rparr>"

definition later_env :: env where
  "later_env = sample_env\<lparr>clock_text := js ''10:00:05 AM''\<rparr>"

definition unrated_threat :: json where
  "unrated_threat = JObj [(js ''type'', JStr (js ''PortScan''))]"

definition empty_details_threat :: json where
  "empty_details_threat = JObj [(js ''type'', JStr (js ''PortScan'')), (js ''details'', JObj [])]"

definition idle_ui :: ui_state where
  "idle_ui = \<lparr>threats = JArr [], summary = JNull, loading = False, error = None\<rparr>"

definition empty_summary :: responses where
  "empty_summary = \<lparr>threatsRes = Fulfilled (JObj []), summaryRes = Fulfilled (JStr []),
                     first_rejected = ThreatsRequest\<rparr>"

definition sample_card :: threat_card where
  "sample_card =
     \<lparr>badge_background = js ''#ff8800'', badge_label = js ''HIGH'',
      timestamp_label = js ''1/1/2025, 12:00:00 AM'',
      type_label = Some (JStr (js ''PortScan'')),
      description_text = Some (JStr (js ''scan'')),
      details_block = Skipped None\<rparr>"

definition sample_dashboard :: dashboard where
  "sample_dashboard =
     \<lparr>last_updated = js ''10:00:00 AM'', refreshing = False,
      summary_grid = Shown \<lparr>total_threats = JNum 1, critical_threats = JNum 0,
                            blocked_connections = JNum 0, monitored_processes = JNum 0\<rparr>,
      threat_count = Some (JNum 1),
      threat_list = Cards [sample_card]\<rparr>"

section \<open>Properties\<close>

subsection \<open>Strings and case conversion\<close>

lemma js_eq_iff [simp]: "js a = js b \<longleftrightarrow> a = b"
proof -
  have "inj (of_char :: char \<Rightarrow> nat)"
    by (rule injI) simp
  then show ?thesis
    unfolding js_def by (simp add: inj_map_eq_map)
qed

lemma js_Nil_iff [simp]: "js s = [] \<longleftrightarrow> s = []"
  by (simp add: js_def)


lemma ascii_lower_unit: "ascii s \<Longrightarrow> ascii (map lower_unit s)"
  by (induction s) (auto simp: ascii_def lower_unit_def)


lemma toLowerCase_names:
  "toLowerCase u (js ''critical'') = js ''critical''"
  "toLowerCase u (js ''CRITICAL'') = js ''critical''"
  "toLowerCase u (js ''bogus'') = js ''bogus''"
  "toLowerCase u (js ''high'') = js ''high''"
  "toLowerCase u (js ''High'') = js ''high''"
  "toLowerCase u (js ''hIGH'') = js ''high''"
  by (simp_all add: toLowerCase_def ascii_def js_def lower_unit_def)

lemma toUpperCase_names:
  "toUpperCase u (js ''high'') = js ''HIGH''"
  "toUpperCase u (js ''High'') = js ''HIGH''"
  "toUpperCase u (js ''hIGH'') = js ''HIGH''"
  by (simp_all add: toUpperCase_def ascii_def js_def upper_unit_def)

lemma render_details_total: "\<exists>b. render_details d = Inr b"
proof (cases d)
  case None
  then show ?thesis by (simp add: render_details_def)
next
  case (Some v)
  then show ?thesis by (cases v) (simp_all add: render_details_def)
qed

subsection \<open>Severity colours\<close>

text \<open>
  Claim C6.  \<^verbatim>\<open>getSeverityColor\<close> maps a severity string, compared after
  \<^verbatim>\<open>toLowerCase\<close>, as follows: \<^verbatim>\<open>critical\<close> to red \<^verbatim>\<open>#ff4444\<close>, \<^verbatim>\<open>high\<close> to orange
  \<^verbatim>\<open>#ff8800\<close>, \<^verbatim>\<open>medium\<close> to amber \<^verbatim>\<open>#ffaa00\<close>, \<^verbatim>\<open>low\<close> to olive \<^verbatim>\<open>#88aa00\<close>, and
  every other string to gray \<^verbatim>\<open>#888888\<close>; an absent severity (\<^verbatim>\<open>undefined\<close> or
  \<^verbatim>\<open>null\<close>) maps to gray as well.  \<^verbatim>\<open>CRITICAL\<close> and \<^verbatim>\<open>critical\<close> get the same colour,
  \<^verbatim>\<open>bogus\<close> gets gray, and any two strings that agree up to case get the same colour.
\<close>

theorem getSeverityColor_mapping:
  "getSeverityColor u (Some (JStr s)) =
     Inr (if toLowerCase u s = js ''critical'' then js ''#ff4444''
          else if toLowerCase u s = js ''high'' then js ''#ff8800''
          else if toLowerCase u s = js ''medium'' then js ''#ffaa00''
          else if toLowerCase u s = js ''low'' then js ''#88aa00''
          else js ''#888888'')
   \<and> getSeverityColor u None = Inr (js ''#888888'')
   \<and> getSeverityColor u (Some JNull) = Inr (js ''#888888'')
   \<and> getSeverityColor u (Some (JStr (js ''critical''))) = Inr (js ''#ff4444'')
   \<and> getSeverityColor u (Some (JStr (js ''CRITICAL''))) = Inr (js ''#ff4444'')
   \<and> getSeverityColor u (Some (JStr (js ''bogus''))) = Inr (js ''#888888'')
   \<and> (toLowerCase u s = toLowerCase u t \<longrightarrow>
        getSeverityColor u (Some (JStr s)) = getSeverityColor u (Some (JStr t)))"
proof -
  have g: "\<And>x. getSeverityColor u (Some (JStr x)) =
     Inr (if toLowerCase u x = js ''critical'' then js ''#ff4444''
          else if toLowerCase u x = js ''high'' then js ''#ff8800''
          else if toLowerCase u x = js ''medium'' then js ''#ffaa00''
          else if toLowerCase u x = js ''low'' then js ''#88aa00''
          else js ''#888888'')"
    by (simp add: getSeverityColor_def)
  have n: "getSeverityColor u None = Inr (js ''#888888'')"
    "getSeverityColor u (Some JNull) = Inr (js ''#888888'')"
    by (simp_all add: getSeverityColor_def)
  show ?thesis
    unfolding g toLowerCase_names using n by simp
qed

theorem getSeverityColor_mapping_witness:
  "toLowerCase sample_unicode (js ''High'') = toLowerCase sample_unicode (js ''hIGH'')
   \<and> getSeverityColor sample_unicode (Some (JStr (js ''High'')))
       = getSeverityColor sample_unicode (Some (JStr (js ''hIGH'')))
   \<and> getSeverityColor sample_unicode (Some (JStr (js ''High''))) = Inr (js ''#ff8800'')"
proof -
  have h: "toLowerCase sample_unicode (js ''High'') = toLowerCase sample_unicode (js ''hIGH'')"
    by (simp add: toLowerCase_names)
  note m = getSeverityColor_mapping [of sample_unicode "js ''High''" "js ''hIGH''"]
  from m h have same: "getSeverityColor sample_unicode (Some (JStr (js ''High'')))
       = getSeverityColor sample_unicode (Some (JStr (js ''hIGH'')))"
    by blast
  from m have "getSeverityColor sample_unicode (Some (JStr (js ''High''))) =
     Inr (if toLowerCase sample_unicode (js ''High'') = js ''critical'' then js ''#ff4444''
          else if toLowerCase sample_unicode (js ''High'') = js ''high'' then js ''#ff8800''
          else if toLowerCase sample_unicode (js ''High'') = js ''medium'' then js ''#ffaa00''
          else if toLowerCase sample_unicode (js ''High'') = js ''low'' then js ''#88aa00''
          else js ''#888888'')"
    by (rule conjunct1)
  then have orange: "getSeverityColor sample_unicode (Some (JStr (js ''High''))) = Inr (js ''#ff8800'')"
    unfolding toLowerCase_names by simp
  from h same orange show ?thesis by blast
qed

subsection \<open>The fetch cycle\<close>

lemma Promise_all_Rejected:
  "Promise_all r = Rejected e \<Longrightarrow> threatsRes r = Rejected e \<or> summaryRes r = Rejected e"
  by (cases "threatsRes r"; cases "summaryRes r") (auto simp: Promise_all_def split: if_splits)

lemma Promise_all_rejects:
  "threatsRes r = Rejected e \<or> summaryRes r = Rejected e \<Longrightarrow> \<exists>err. Promise_all r = Rejected err"
  by (cases "threatsRes r"; cases "summaryRes r") (auto simp: Promise_all_def)

lemma try_block_fulfilled:
  assumes "threatsRes r = Fulfilled td" and "summaryRes r = Fulfilled sd"
  shows "try_block r =
    (case get_field td (js ''threats'') of
       Inl e \<Rightarrow> Inl e
     | Inr v \<Rightarrow> Inr (or_else v (JArr []), or_else (Some sd) (JObj [])))"
  using assms by (simp add: try_block_def Promise_all_def)

lemma fetchData_resume_failure:
  assumes "try_block r = Inl err"
  shows "fetchData_resume r s =
    s\<lparr>error := Some (js ''Failed to fetch data: '' @ message err), loading := False\<rparr>"
  using assms by (simp add: fetchData_resume_def)

lemma fetchData_resume_success:
  assumes "try_block r = Inr (t, m)"
  shows "fetchData_resume r s = s\<lparr>threats := t, summary := m, loading := False\<rparr>"
  using assms by (simp add: fetchData_resume_def)

lemma try_block_summary_fails: "try_block summary_fails = Inl (AxiosError (js ''Network Error''))"
  by (simp add: try_block_def Promise_all_def summary_fails_def)

lemma try_block_both_succeed:
  "try_block both_succeed = Inr (JArr [sample_threat], JObj [(js ''total_threats'', JNum 1)])"
  by (simp add: try_block_def Promise_all_def both_succeed_def)

lemma try_block_empty_summary: "try_block empty_summary = Inr (JArr [], JObj [])"
  by (simp add: try_block_def Promise_all_def empty_summary_def)

lemma failed_message:
  "js ''Failed to fetch data: '' @ js ''Network Error'' = js ''Failed to fetch data: Network Error''"
  by (simp add: js_def)

text \<open>
  Claim C1.  A failed fetch cycle is one whose \<^verbatim>\<open>try\<close> block throws: a request was
  rejected, or the threats body was \<^verbatim>\<open>null\<close>.  After it \<open>error\<close> is the non-empty
  string \<^verbatim>\<open>Failed to fetch data: \<close> followed by the exception's message, \<open>loading\<close> is
  false, and \<open>threats\<close> and \<open>summary\<close> are what they were before the cycle, both for the
  part of \<^verbatim>\<open>fetchData\<close> after its \<^verbatim>\<open>await\<close> and for the whole cycle.  A later successful
  cycle replaces both slots by its own values.
\<close>

theorem failed_cycle_keeps_data:
  assumes "try_block r = Inl err"
  shows "error (fetchData_resume r s) = Some (js ''Failed to fetch data: '' @ message err)
    \<and> js ''Failed to fetch data: '' @ message err \<noteq> []
    \<and> \<not> loading (fetchData_resume r s)
    \<and> threats (fetchData_resume r s) = threats s
    \<and> summary (fetchData_resume r s) = summary s
    \<and> error (fetchData r s) = Some (js ''Failed to fetch data: '' @ message err)
    \<and> \<not> loading (fetchData r s)
    \<and> threats (fetchData r s) = threats s
    \<and> summary (fetchData r s) = summary s
    \<and> (try_block r' = Inr (t, m) \<longrightarrow>
          threats (fetchData r' (fetchData r s)) = t \<and> summary (fetchData r' (fetchData r s)) = m)"
proof -
  have later: "try_block r' = Inr (t, m) \<Longrightarrow>
      threats (fetchData r' x) = t \<and> summary (fetchData r' x) = m" for x
    by (simp add: fetchData_def fetchData_resume_success)
  show ?thesis
    using later by (simp add: fetchData_def fetchData_begin_def fetchData_resume_failure [OF assms])
qed

theorem failed_cycle_keeps_data_witness:
  "try_block summary_fails = Inl (AxiosError (js ''Network Error''))
   \<and> error (fetchData_resume summary_fails sample_ui)
       = Some (js ''Failed to fetch data: Network Error'')
   \<and> \<not> loading (fetchData_resume summary_fails sample_ui)
   \<and> threats (fetchData_resume summary_fails sample_ui) = JArr [sample_threat]
   \<and> summary (fetchData_resume summary_fails sample_ui) = JObj [(js ''total_threats'', JNum 1)]"
proof -
  note h = try_block_summary_fails
  from failed_cycle_keeps_data [OF h, of sample_ui] h show ?thesis
    by (simp add: sample_ui_def failed_message)
qed

text \<open>
  Claim C3, as stated, does not hold: a successful cycle does not leave \<open>error\<close> unset
  when it overlaps a cycle that fails.  \<open>error\<close> is cleared only where a cycle is
  dispatched; with two cycles in flight, the failure of one sets \<open>error\<close>, and the
  success of the other, completing afterwards, replaces the data and leaves the
  message, so that the error view stays.
\<close>

theorem overlapping_success_counterexample:
  "try_block both_succeed = Inr (JArr [sample_threat], JObj [(js ''total_threats'', JNum 1)])
   \<and> ui (run [Mount, Tick, Settle summary_fails, Settle both_succeed]) =
       \<lparr>threats = JArr [sample_threat], summary = JObj [(js ''total_threats'', JNum 1)],
        loading = False, error = Some (js ''Failed to fetch data: Network Error'')\<rparr>
   \<and> App sample_unicode sample_env (ui (run [Mount, Tick, Settle summary_fails, Settle both_succeed]))
       = Inr (ErrorView (js ''Failed to fetch data: Network Error'') API_BASE)"
proof -
  have r: "ui (run [Mount, Tick, Settle summary_fails, Settle both_succeed]) =
       \<lparr>threats = JArr [sample_threat], summary = JObj [(js ''total_threats'', JNum 1)],
        loading = False, error = Some (js ''Failed to fetch data: Network Error'')\<rparr>"
    by (simp add: run_def run_from_def init_sys_def init_ui_def start_cycle_def set_state_def
        fetchData_begin_def fetchData_resume_failure [OF try_block_summary_fails]
        fetchData_resume_success [OF try_block_both_succeed] failed_message)
  show ?thesis
    unfolding r by (simp add: try_block_both_succeed App_def)
qed

text \<open>
  Claim C3, amended.  When both requests are fulfilled and the threats body is not
  \<^verbatim>\<open>null\<close>, the cycle sets \<open>threats\<close> to \<^verbatim>\<open>data.threats || []\<close>, which is the payload's
  array when there is one and the empty array when the field is missing, and \<open>summary\<close>
  to \<^verbatim>\<open>data || {}\<close>, which is the summary object when there is one and the empty record
  when the body is missing (falsy); it sets \<open>loading\<close> to false and does not touch
  \<open>error\<close>.  The start of the cycle has cleared \<open>error\<close>, so that it is unset after a
  cycle that no other cycle overlaps, and the start of the next cycle clears it again.
\<close>

theorem successful_cycle_replaces_data:
  assumes "threatsRes r = Fulfilled td" and "summaryRes r = Fulfilled sd"
    and "get_field td (js ''threats'') = Inr v"
  shows "threats (fetchData_resume r s) = or_else v (JArr [])
    \<and> (v = None \<longrightarrow> threats (fetchData_resume r s) = JArr [])
    \<and> (\<forall>xs. v = Some (JArr xs) \<longrightarrow> threats (fetchData_resume r s) = JArr xs)
    \<and> summary (fetchData_resume r s) = or_else (Some sd) (JObj [])
    \<and> (\<forall>kvs. sd = JObj kvs \<longrightarrow> summary (fetchData_resume r s) = JObj kvs)
    \<and> (\<not> truthy sd \<longrightarrow> summary (fetchData_resume r s) = JObj [])
    \<and> \<not> loading (fetchData_resume r s)
    \<and> error (fetchData_resume r s) = error s
    \<and> threats (fetchData r s) = threats (fetchData_resume r s)
    \<and> summary (fetchData r s) = summary (fetchData_resume r s)
    \<and> \<not> loading (fetchData r s)
    \<and> error (fetchData r s) = None
    \<and> error (fetchData_begin (fetchData_resume r s)) = None"
proof -
  have t: "try_block r = Inr (or_else v (JArr []), or_else (Some sd) (JObj []))"
    using assms by (simp add: try_block_fulfilled)
  have r: "fetchData_resume r x =
      x\<lparr>threats := or_else v (JArr []), summary := or_else (Some sd) (JObj []), loading := False\<rparr>" for x
    by (rule fetchData_resume_success [OF t])
  show ?thesis
    by (auto simp: r fetchData_def fetchData_begin_def)
qed

theorem successful_cycle_replaces_data_witness:
  "threats (fetchData both_succeed failed_ui) = JArr [sample_threat]
   \<and> summary (fetchData both_succeed failed_ui) = JObj [(js ''total_threats'', JNum 1)]
   \<and> \<not> loading (fetchData both_succeed failed_ui)
   \<and> error (fetchData both_succeed failed_ui) = None
   \<and> error (fetchData_resume both_succeed failed_ui) = error failed_ui"
proof -
  have a: "threatsRes both_succeed = Fulfilled (JObj [(js ''threats'', JArr [sample_threat])])"
    and b: "summaryRes both_succeed = Fulfilled (JObj [(js ''total_threats'', JNum 1)])"
    by (simp_all add: both_succeed_def)
  have c: "get_field (JObj [(js ''threats'', JArr [sample_threat])]) (js ''threats'')
      = Inr (Some (JArr [sample_threat]))"
    by simp
  from successful_cycle_replaces_data [OF a b c, of failed_ui] show ?thesis
    by simp
qed

text \<open>
  Claim C4.  A cycle issues its two requests together: where \<^verbatim>\<open>fetchData\<close> is
  dispatched, by the mount or by a tick of the armed timer, the request for the threats
  and the request for the summary are both sent, in this order and to the two addresses
  of the service, before any response is looked at, and one cycle is then in flight;
  nothing else sends a request, neither a tick of a cleared timer nor the
  settling of a cycle nor teardown.  The two are joined by \<^verbatim>\<open>Promise.all\<close>:
  the \<^verbatim>\<open>try\<close> block succeeds only if both requests are fulfilled (and does succeed
  then, unless the threats body is \<^verbatim>\<open>null\<close>); if either request is rejected the cycle
  fails with one of the rejections and the error view is rendered.  In particular a
  cycle whose summary request fails while its threats request succeeds fails with the
  summary's error, leaves \<open>threats\<close> as it was and shows the error view.
\<close>

theorem fetch_cycle_join:
  "(try_block r = Inr p \<longrightarrow>
      (\<exists>td sd. threatsRes r = Fulfilled td \<and> summaryRes r = Fulfilled sd))
   \<and> (threatsRes r = Fulfilled td \<and> summaryRes r = Fulfilled sd \<and> td \<noteq> JNull \<longrightarrow>
      (\<exists>t m. try_block r = Inr (t, m)))
   \<and> (threatsRes r = Rejected e \<or> summaryRes r = Rejected e \<longrightarrow>
      (\<exists>err. try_block r = Inl err
         \<and> (threatsRes r = Rejected err \<or> summaryRes r = Rejected err)
         \<and> App u env (fetchData_resume r s)
             = Inr (ErrorView (js ''Failed to fetch data: '' @ message err) API_BASE)))
   \<and> (threatsRes r = Fulfilled td \<and> summaryRes r = Rejected e \<longrightarrow>
      try_block r = Inl e
      \<and> threats (fetchData_resume r s) = threats s
      \<and> App u env (fetchData_resume r s)
          = Inr (ErrorView (js ''Failed to fetch data: '' @ message e) API_BASE))
   \<and> (interval y \<longrightarrow>
      sent (step Tick y) = sent y @ [ThreatsRequest, SummaryRequest]
      \<and> in_flight (step Tick y) = in_flight y + 1)
   \<and> (phase y = Created \<longrightarrow>
      sent (step Mount y) = sent y @ [ThreatsRequest, SummaryRequest]
      \<and> in_flight (step Mount y) = in_flight y + 1)
   \<and> (\<not> interval y \<longrightarrow> sent (step Tick y) = sent y)
   \<and> (phase y \<noteq> Created \<longrightarrow> sent (step Mount y) = sent y)
   \<and> sent (step (Settle r) y) = sent y
   \<and> sent (step Unmount y) = sent y
   \<and> url ThreatsRequest = js ''http://localhost:8001/api/threats''
   \<and> url SummaryRequest = js ''http://localhost:8001/api/dashboard/summary''"
proof -
  have shown: "App u env (fetchData_resume r s)
      = Inr (ErrorView (js ''Failed to fetch data: '' @ message err) API_BASE)"
    if "try_block r = Inl err" for err
    by (simp add: fetchData_resume_failure [OF that] App_def)
  have one: "try_block r = Inr p \<longrightarrow>
      (\<exists>td sd. threatsRes r = Fulfilled td \<and> summaryRes r = Fulfilled sd)"
    by (cases "threatsRes r"; cases "summaryRes r")
       (auto simp: try_block_def Promise_all_def)
  have two: "threatsRes r = Fulfilled td \<and> summaryRes r = Fulfilled sd \<and> td \<noteq> JNull \<longrightarrow>
      (\<exists>t m. try_block r = Inr (t, m))"
    by (cases td) (auto simp: try_block_fulfilled)
  have three: "threatsRes r = Rejected e \<or> summaryRes r = Rejected e \<longrightarrow>
      (\<exists>err. try_block r = Inl err
         \<and> (threatsRes r = Rejected err \<or> summaryRes r = Rejected err)
         \<and> App u env (fetchData_resume r s)
             = Inr (ErrorView (js ''Failed to fetch data: '' @ message err) API_BASE))"
  proof
    assume "threatsRes r = Rejected e \<or> summaryRes r = Rejected e"
    then obtain err where p: "Promise_all r = Rejected err"
      using Promise_all_rejects by blast
    then have t: "try_block r = Inl err"
      by (simp add: try_block_def)
    from Promise_all_Rejected [OF p] t shown [OF t]
    show "\<exists>err. try_block r = Inl err
         \<and> (threatsRes r = Rejected err \<or> summaryRes r = Rejected err)
         \<and> App u env (fetchData_resume r s)
             = Inr (ErrorView (js ''Failed to fetch data: '' @ message err) API_BASE)"
      by blast
  qed
  have four: "threatsRes r = Fulfilled td \<and> summaryRes r = Rejected e \<longrightarrow>
      try_block r = Inl e
      \<and> threats (fetchData_resume r s) = threats s
      \<and> App u env (fetchData_resume r s)
          = Inr (ErrorView (js ''Failed to fetch data: '' @ message e) API_BASE)"
  proof
    assume a: "threatsRes r = Fulfilled td \<and> summaryRes r = Rejected e"
    then have t: "try_block r = Inl e"
      by (simp add: try_block_def Promise_all_def)
    from t shown [OF t] show "try_block r = Inl e
      \<and> threats (fetchData_resume r s) = threats s
      \<and> App u env (fetchData_resume r s)
          = Inr (ErrorView (js ''Failed to fetch data: '' @ message e) API_BASE)"
      by (simp add: fetchData_resume_failure [OF t])
  qed
  have five: "interval y \<longrightarrow>
      sent (step Tick y) = sent y @ [ThreatsRequest, SummaryRequest]
      \<and> in_flight (step Tick y) = in_flight y + 1"
    by (simp add: start_cycle_def fetchData_requests_def)
  have six: "phase y = Created \<longrightarrow>
      sent (step Mount y) = sent y @ [ThreatsRequest, SummaryRequest]
      \<and> in_flight (step Mount y) = in_flight y + 1"
    by (simp add: start_cycle_def fetchData_requests_def)
  have idle: "(\<not> interval y \<longrightarrow> sent (step Tick y) = sent y)
      \<and> (phase y \<noteq> Created \<longrightarrow> sent (step Mount y) = sent y)"
    by simp
  have seven: "sent (step (Settle r) y) = sent y"
    by (simp add: set_state_def)
  have eight: "sent (step Unmount y) = sent y"
    by (simp split: phase.splits)
  have nine: "url ThreatsRequest = js ''http://localhost:8001/api/threats''"
    "url SummaryRequest = js ''http://localhost:8001/api/dashboard/summary''"
    by (simp_all add: API_BASE_def js_def)
  from one two three four five six idle seven eight nine show ?thesis by blast
qed

theorem fetch_cycle_join_witness:
  "threatsRes summary_fails = Fulfilled (JObj [(js ''threats'', JArr [])])
   \<and> summaryRes summary_fails = Rejected (AxiosError (js ''Network Error''))
   \<and> try_block summary_fails = Inl (AxiosError (js ''Network Error''))
   \<and> threats (fetchData_resume summary_fails sample_ui) = JArr [sample_threat]
   \<and> App sample_unicode sample_env (fetchData_resume summary_fails sample_ui)
       = Inr (ErrorView (js ''Failed to fetch data: Network Error'') API_BASE)
   \<and> (\<exists>t m. try_block both_succeed = Inr (t, m))
   \<and> phase init_sys = Created
   \<and> sent (step Mount init_sys) = [ThreatsRequest, SummaryRequest]
   \<and> interval (step Mount init_sys)
   \<and> sent (step Tick (step Mount init_sys))
       = [ThreatsRequest, SummaryRequest, ThreatsRequest, SummaryRequest]
   \<and> in_flight (step Tick (step Mount init_sys)) = 2"
proof -
  have a: "threatsRes summary_fails = Fulfilled (JObj [(js ''threats'', JArr [])])"
    and b: "summaryRes summary_fails = Rejected (AxiosError (js ''Network Error''))"
    by (simp_all add: summary_fails_def)
  have c: "threatsRes both_succeed = Fulfilled (JObj [(js ''threats'', JArr [sample_threat])])"
    and d: "summaryRes both_succeed = Fulfilled (JObj [(js ''total_threats'', JNum 1)])"
    by (simp_all add: both_succeed_def)
  have x: "threats sample_ui = JArr [sample_threat]"
    by (simp add: sample_ui_def)
  have i: "phase init_sys = Created" and j: "sent init_sys = []" and k: "in_flight init_sys = 0"
    by (simp_all add: init_sys_def)
  have l: "interval (step Mount init_sys)"
    by (simp add: init_sys_def start_cycle_def)
  from fetch_cycle_join [of summary_fails _ "JObj [(js ''threats'', JArr [])]" _
      "AxiosError (js ''Network Error'')" sample_unicode sample_env sample_ui init_sys]
  have first: "try_block summary_fails = Inl (AxiosError (js ''Network Error''))
      \<and> threats (fetchData_resume summary_fails sample_ui) = threats sample_ui
      \<and> App sample_unicode sample_env (fetchData_resume summary_fails sample_ui)
          = Inr (ErrorView (js ''Failed to fetch data: '' @ message (AxiosError (js ''Network Error''))) API_BASE)"
    and mount: "sent (step Mount init_sys) = sent init_sys @ [ThreatsRequest, SummaryRequest]
      \<and> in_flight (step Mount init_sys) = in_flight init_sys + 1"
    using a b i by blast+
  from fetch_cycle_join [of both_succeed _ "JObj [(js ''threats'', JArr [sample_threat])]"
      "JObj [(js ''total_threats'', JNum 1)]" _ _ _ _ "step Mount init_sys"]
  have second: "\<exists>t m. try_block both_succeed = Inr (t, m)"
    and tick: "sent (step Tick (step Mount init_sys))
        = sent (step Mount init_sys) @ [ThreatsRequest, SummaryRequest]
      \<and> in_flight (step Tick (step Mount init_sys)) = in_flight (step Mount init_sys) + 1"
    using c d l by blast+
  from first second a b x i l mount tick j k show ?thesis
    by (simp add: failed_message)
qed

subsection \<open>Threat cards\<close>

lemma get_field_total: "t \<noteq> JNull \<Longrightarrow> \<exists>v. get_field t k = Inr v"
  by (cases t) simp_all

lemma get_field_field_of: "get_field t k = Inr v \<Longrightarrow> field_of t k = v"
  by (simp add: field_of_def)

lemma render_threat_fields:
  assumes "render_threat u e t = Inr c"
  shows "\<exists>sev ts d. get_field t (js ''severity'') = Inr sev
      \<and> getSeverityColor u sev = Inr (badge_background c)
      \<and> severity_label u sev = Inr (badge_label c)
      \<and> get_field t (js ''timestamp'') = Inr ts
      \<and> formatTimestamp e ts = Inr (timestamp_label c)
      \<and> get_field t (js ''type'') = Inr (type_label c)
      \<and> get_field t (js ''description'') = Inr (description_text c)
      \<and> get_field t (js ''details'') = Inr d
      \<and> render_details d = Inr (details_block c)"
  using assms unfolding render_threat_def
  by (auto split: sum.splits)

lemma render_threat_total:
  assumes "t \<noteq> JNull" and "get_field t (js ''severity'') = Inr sev"
    and "getSeverityColor u sev = Inr col" and "severity_label u sev = Inr lab"
    and "get_field t (js ''timestamp'') = Inr ts" and "\<not> date_throws ts"
  shows "\<exists>c. render_threat u e t = Inr c"
proof -
  have 1: "formatTimestamp e ts = Inr (toLocaleString e ts)"
    using assms(6) by (simp add: formatTimestamp_def)
  obtain ty where 2: "get_field t (js ''type'') = Inr ty"
    using get_field_total [OF assms(1)] by blast
  obtain de where 3: "get_field t (js ''description'') = Inr de"
    using get_field_total [OF assms(1)] by blast
  obtain d where 4: "get_field t (js ''details'') = Inr d"
    using get_field_total [OF assms(1)] by blast
  obtain b where 5: "render_details d = Inr b"
    using render_details_total by blast
  show ?thesis
    by (simp add: render_threat_def assms(2-5) 1 2 3 4 5)
qed

lemma getSeverityColor_spec: "getSeverityColor u sev = Inr col \<Longrightarrow> col = spec_colour u sev"
  unfolding getSeverityColor_def spec_colour_def
  by (cases "(''severity?.toLowerCase'', toLowerCase u, sev)" rule: optional_method.cases)
     (auto split: if_splits)

lemma severity_label_spec: "severity_label u sev = Inr lab \<Longrightarrow> lab = spec_badge u sev"
  unfolding severity_label_def spec_badge_def
  by (cases "(''threat.severity?.toUpperCase'', toUpperCase u, sev)" rule: optional_method.cases)
     (auto split: if_splits)

lemma formatTimestamp_spec: "formatTimestamp e ts = Inr f \<Longrightarrow> f = toLocaleString e ts"
  by (auto simp: formatTimestamp_def split: if_splits)

lemma render_details_spec: "render_details d = Inr b \<Longrightarrow> b = spec_details d"
  unfolding render_details_def spec_details_def
  by (auto split: option.splits if_splits sum.splits)

lemma render_threat_spec:
  assumes "render_threat u e t = Inr c"
  shows "c = spec_card u e t"
proof -
  from render_threat_fields [OF assms] obtain sev ts d where
    f: "get_field t (js ''severity'') = Inr sev"
      "getSeverityColor u sev = Inr (badge_background c)"
      "severity_label u sev = Inr (badge_label c)"
      "get_field t (js ''timestamp'') = Inr ts"
      "formatTimestamp e ts = Inr (timestamp_label c)"
      "get_field t (js ''type'') = Inr (type_label c)"
      "get_field t (js ''description'') = Inr (description_text c)"
      "get_field t (js ''details'') = Inr d"
      "render_details d = Inr (details_block c)"
    by blast
  have "badge_background c = spec_colour u (field_of t (js ''severity''))"
    using getSeverityColor_spec [OF f(2)] get_field_field_of [OF f(1)] by simp
  moreover have "badge_label c = spec_badge u (field_of t (js ''severity''))"
    using severity_label_spec [OF f(3)] get_field_field_of [OF f(1)] by simp
  moreover have "timestamp_label c = toLocaleString e (field_of t (js ''timestamp''))"
    using formatTimestamp_spec [OF f(5)] get_field_field_of [OF f(4)] by simp
  moreover have "type_label c = field_of t (js ''type'')"
    using get_field_field_of [OF f(6)] by simp
  moreover have "description_text c = field_of t (js ''description'')"
    using get_field_field_of [OF f(7)] by simp
  moreover have "details_block c = spec_details (field_of t (js ''details''))"
    using render_details_spec [OF f(9)] get_field_field_of [OF f(8)] by simp
  ultimately show ?thesis
    by (simp add: spec_card_def)
qed

lemma render_unrated_threat: "render_threat sample_unicode sample_env unrated_threat =
    Inr \<lparr>badge_background = js ''#888888'', badge_label = js ''UNKNOWN'',
         timestamp_label = js ''1/1/2025, 12:00:00 AM'',
         type_label = Some (JStr (js ''PortScan'')),
         description_text = None, details_block = Skipped None\<rparr>"
  by (simp add: render_threat_def unrated_threat_def getSeverityColor_def severity_label_def
      render_details_def formatTimestamp_def sample_env_def)

lemma render_empty_details_threat:
  "render_threat sample_unicode sample_env empty_details_threat =
    Inr \<lparr>badge_background = js ''#888888'', badge_label = js ''UNKNOWN'',
         timestamp_label = js ''1/1/2025, 12:00:00 AM'',
         type_label = Some (JStr (js ''PortScan'')),
         description_text = None, details_block = Shown []\<rparr>"
  by (simp add: render_threat_def empty_details_threat_def getSeverityColor_def
      severity_label_def render_details_def formatTimestamp_def sample_env_def)

text \<open>
  Claim C7.  \<^verbatim>\<open>threat.details && (...)\<close> renders no details block when the field is absent
  (the child is \<^verbatim>\<open>undefined\<close>) and a details block without entries when the field is the
  empty mapping, which is truthy.  Every card of a threat without \<^verbatim>\<open>details\<close> differs
  from every card of a threat with \<^verbatim>\<open>details = {}\<close>.
\<close>

theorem details_absent_or_empty:
  "render_details None = Inr (Skipped None)
   \<and> render_details (Some (JObj [])) = Inr (Shown [])
   \<and> (render_threat u e t = Inr c \<and> get_field t (js ''details'') = Inr None \<longrightarrow>
        details_block c = Skipped None)
   \<and> (render_threat u e t = Inr c \<and> get_field t (js ''details'') = Inr (Some (JObj [])) \<longrightarrow>
        details_block c = Shown [])
   \<and> (render_threat u e t = Inr c \<and> get_field t (js ''details'') = Inr None
        \<and> render_threat u e t' = Inr c' \<and> get_field t' (js ''details'') = Inr (Some (JObj [])) \<longrightarrow>
        c \<noteq> c')"
proof -
  have a: "render_details None = Inr (Skipped None)"
    and b: "render_details (Some (JObj [])) = Inr (Shown [])"
    by (simp_all add: render_details_def)
  have absent: "details_block x = Skipped None"
    if "render_threat u e w = Inr x" and "get_field w (js ''details'') = Inr None" for w x
    using render_threat_fields [OF that(1)] that(2) a by auto
  have empty: "details_block x = Shown []"
    if "render_threat u e w = Inr x" and "get_field w (js ''details'') = Inr (Some (JObj []))" for w x
    using render_threat_fields [OF that(1)] that(2) b by auto
  have differ: "c \<noteq> c'"
    if "render_threat u e t = Inr c" "get_field t (js ''details'') = Inr None"
      "render_threat u e t' = Inr c'" "get_field t' (js ''details'') = Inr (Some (JObj []))"
    using absent [OF that(1,2)] empty [OF that(3,4)] by auto
  from a b absent empty differ show ?thesis by blast
qed

theorem details_absent_or_empty_witness:
  "details_block (projr (render_threat sample_unicode sample_env unrated_threat)) = Skipped None
   \<and> details_block (projr (render_threat sample_unicode sample_env empty_details_threat)) = Shown []
   \<and> projr (render_threat sample_unicode sample_env unrated_threat)
       \<noteq> projr (render_threat sample_unicode sample_env empty_details_threat)"
proof -
  note r1 = render_unrated_threat and r2 = render_empty_details_threat
  have g1: "get_field unrated_threat (js ''details'') = Inr None"
    by (simp add: unrated_threat_def)
  have g2: "get_field empty_details_threat (js ''details'') = Inr (Some (JObj []))"
    by (simp add: empty_details_threat_def)
  from details_absent_or_empty [of sample_unicode sample_env unrated_threat _ empty_details_threat]
    r1 r2 g1 g2
  show ?thesis by simp
qed




subsection \<open>Invariants of the polling loop\<close>

lemma run_from_Nil: "run_from s [] = s"
  by (simp add: run_from_def)

lemma run_from_Cons: "run_from s (ev # evs) = run_from (step ev s) evs"
  by (simp add: run_from_def)






subsection \<open>The Presenter against the words of the specification\<close>

lemma counter_spec: "truthy m \<Longrightarrow> counter m k = Inr (or_else (field_of m k) (JNum 0))"
  by (cases m) (simp_all add: counter_def field_of_def)

lemma render_summary_spec: "render_summary m = Inr (spec_counters m)"
  by (simp add: render_summary_def spec_counters_def counter_spec)

lemma map_exn_spec:
  assumes "\<And>x y. f x = Inr y \<Longrightarrow> y = g x"
  shows "map_exn f xs = Inr ys \<Longrightarrow> ys = map g xs"
proof (induction xs arbitrary: ys)
  case Nil
  then show ?case by simp
next
  case (Cons x xs)
  from Cons.prems obtain y zs where y: "f x = Inr y" and zs: "map_exn f xs = Inr zs"
    and ys: "ys = y # zs"
    by (auto split: sum.splits)
  from assms [OF y] Cons.IH [OF zs] ys show ?case by simp
qed

lemma map_exn_total:
  "(\<And>x. x \<in> set xs \<Longrightarrow> f x = Inr (g x)) \<Longrightarrow> map_exn f xs = Inr (map g xs)"
  by (induction xs) simp_all

lemma render_threats_spec:
  assumes "render_threats u e ts = Inr l"
  shows "l = (if field_of ts (js ''length'') = Some (JNum 0) then NoThreatsBanner
              else Cards (map (spec_card u e) (elements ts)))"
proof (cases "get_field ts (js ''length'')")
  case (Inl err)
  with assms show ?thesis by (simp add: render_threats_def length_is_zero_def)
next
  case (Inr n)
  then have f: "field_of ts (js ''length'') = n"
    by (rule get_field_field_of)
  show ?thesis
  proof (cases "n = Some (JNum 0)")
    case True
    with assms Inr f show ?thesis
      by (simp add: render_threats_def length_is_zero_def)
  next
    case False
    with assms Inr obtain xs cards where xs: "ts = JArr xs"
      and cards: "map_exn (render_threat u e) xs = Inr cards" and l: "l = Cards cards"
      by (auto simp: render_threats_def length_is_zero_def split: json.splits sum.splits)
    have "cards = map (spec_card u e) xs"
      using cards by (rule map_exn_spec [rotated]) (rule render_threat_spec)
    with False f l xs show ?thesis by simp
  qed
qed

lemma render_dashboard_spec:
  assumes "render_dashboard u e s = Inr v"
  shows "v = DashboardView (spec_dashboard u e s)"
proof -
  from assms obtain n l where n: "get_field (threats s) (js ''length'') = Inr n"
    and l: "render_threats u e (threats s) = Inr l"
    and v: "v = DashboardView \<lparr>last_updated = clock_text e, refreshing = loading s,
        summary_grid = spec_counters (summary s), threat_count = n, threat_list = l\<rparr>"
    by (auto simp: render_dashboard_def render_summary_spec split: sum.splits)
  from render_threats_spec [OF l] get_field_field_of [OF n] v show ?thesis
    by (simp add: spec_dashboard_def)
qed

lemma text_or_absent_severity:
  "text_or_absent sev \<Longrightarrow>
     getSeverityColor u sev = Inr (spec_colour u sev) \<and> severity_label u sev = Inr (spec_badge u sev)"
  by (cases sev rule: text_or_absent.cases)
     (simp_all add: getSeverityColor_def severity_label_def spec_colour_def spec_badge_def)

lemma instant_or_absent_date: "instant_or_absent ts \<Longrightarrow> \<not> date_throws ts"
  by (cases ts rule: instant_or_absent.cases) simp_all

lemma threat_ok_renders:
  assumes "threat_ok t"
  shows "render_threat u e t = Inr (spec_card u e t)"
proof -
  from assms obtain kvs where t: "t = JObj kvs"
    by (cases t) simp_all
  have nn: "t \<noteq> JNull" and sv: "get_field t (js ''severity'') = Inr (map_of kvs (js ''severity''))"
    and tm: "get_field t (js ''timestamp'') = Inr (map_of kvs (js ''timestamp''))"
    by (simp_all add: t)
  from assms t have s: "text_or_absent (map_of kvs (js ''severity''))"
    and i: "instant_or_absent (map_of kvs (js ''timestamp''))"
    by simp_all
  from text_or_absent_severity [OF s, of u] instant_or_absent_date [OF i]
  obtain c where c: "render_threat u e t = Inr c"
    using render_threat_total [OF nn sv _ _ tm] by blast
  with render_threat_spec [OF c] show ?thesis by simp
qed

lemma render_dashboard_total:
  assumes "threats_ok (threats s)"
  shows "render_dashboard u e s = Inr (DashboardView (spec_dashboard u e s))"
proof -
  from assms obtain xs where xs: "threats s = JArr xs" and ok: "list_all threat_ok xs"
    by (cases "threats s") simp_all
  have cards: "map_exn (render_threat u e) xs = Inr (map (spec_card u e) xs)"
    using ok by (intro map_exn_total threat_ok_renders) (simp add: list_all_iff)
  have "\<exists>l. render_threats u e (threats s) = Inr l"
    by (cases "xs = []") (simp_all add: xs render_threats_def length_is_zero_def cards)
  then obtain v where "render_dashboard u e s = Inr v"
    by (auto simp: render_dashboard_def render_summary_spec xs)
  with render_dashboard_spec [of u e s v] show ?thesis by simp
qed


subsection \<open>Render modes\<close>



lemma run_mounted: "ui (run [Mount]) =
    \<lparr>threats = JArr [], summary = JNull, loading = True, error = None\<rparr>"
  by (simp add: run_def run_from_def init_sys_def init_ui_def start_cycle_def set_state_def
      fetchData_begin_def)

lemma run_succeeded: "ui (run [Mount, Settle both_succeed]) =
    \<lparr>threats = JArr [sample_threat], summary = JObj [(js ''total_threats'', JNum 1)],
     loading = False, error = None\<rparr>"
  by (simp add: run_def run_from_def init_sys_def init_ui_def start_cycle_def set_state_def
      fetchData_begin_def fetchData_resume_success [OF try_block_both_succeed])

lemma spec_card_sample: "spec_card sample_unicode sample_env sample_threat = sample_card"
  by (simp add: spec_card_def sample_threat_def field_of_def spec_colour_def spec_badge_def
      toLowerCase_names toUpperCase_names spec_details_def sample_env_def sample_card_def)

lemma spec_dashboard_succeeded:
  "spec_dashboard sample_unicode sample_env (ui (run [Mount, Settle both_succeed]))
     = sample_dashboard"
  by (simp add: run_succeeded spec_dashboard_def spec_counters_def field_of_def
      spec_card_sample sample_dashboard_def)
     (simp add: sample_env_def)

lemma threat_ok_sample: "threat_ok sample_threat"
  by (simp add: sample_threat_def)


subsection \<open>The summary grid\<close>

lemma App_dashboard:
  "App u e s = Inr (DashboardView d) \<Longrightarrow> render_dashboard u e s = Inr (DashboardView d)"
  by (auto simp: App_def split: if_splits sum.splits bool.splits)

lemma App_grid:
  assumes "App u e s = Inr (DashboardView d)"
  shows "summary_grid d = spec_counters (summary s)"
  using render_dashboard_spec [OF App_dashboard [OF assms]] by (simp add: spec_dashboard_def)

lemma spec_counters_object:
  "spec_counters (JObj kvs) =
     Shown \<lparr>total_threats = or_else (map_of kvs (js ''total_threats'')) (JNum 0),
            critical_threats = or_else (map_of kvs (js ''critical_threats'')) (JNum 0),
            blocked_connections = or_else (map_of kvs (js ''blocked_connections'')) (JNum 0),
            monitored_processes = or_else (map_of kvs (js ''monitored_processes'')) (JNum 0)\<rparr>"
  by (simp add: spec_counters_def field_of_def)

lemma try_block_summary:
  "try_block r = Inr (t, m) \<Longrightarrow> \<exists>sd. summaryRes r = Fulfilled sd \<and> m = or_else (Some sd) (JObj [])"
  by (cases "threatsRes r"; cases "summaryRes r")
     (auto simp: try_block_def Promise_all_def split: sum.splits)

lemma summary_after_success:
  assumes "try_block r = Inr p"
  shows "truthy (summary (fetchData_resume r s))"
proof -
  obtain t m where p: "p = (t, m)" by (cases p)
  with assms obtain sd where "m = or_else (Some sd) (JObj [])"
    using try_block_summary by blast
  then have "truthy m" by simp
  with assms p show ?thesis by (simp add: fetchData_resume_success)
qed

lemma summary_fetchData_resume:
  "truthy (summary s) \<Longrightarrow> truthy (summary (fetchData_resume r s))"
proof (cases "try_block r")
  case (Inl err)
  assume "truthy (summary s)"
  with Inl show ?thesis by (simp add: fetchData_resume_failure)
next
  case (Inr p)
  then show ?thesis by (rule summary_after_success)
qed

lemma summary_step: "truthy (summary (ui y)) \<Longrightarrow> truthy (summary (ui (step ev y)))"
  by (cases ev)
     (auto simp: start_cycle_def set_state_def fetchData_begin_def summary_fetchData_resume
       split: phase.splits)

lemma summary_run_from:
  "truthy (summary (ui y)) \<Longrightarrow> truthy (summary (ui (run_from y evs)))"
  by (induction evs arbitrary: y) (simp_all add: run_from_Nil run_from_Cons summary_step)

lemma truthy_not_null: "truthy m \<Longrightarrow> m \<noteq> JNull"
  by auto

text \<open>
  Claim C10.  \<open>summary\<close> is \<^verbatim>\<open>null\<close> in the initial state, and a dashboard rendered with
  a \<^verbatim>\<open>null\<close> summary has no counter grid at all.  Every successful cycle sets \<open>summary\<close>
  to a truthy value, hence not \<^verbatim>\<open>null\<close>, which is an object (at least the empty record)
  when the summary body is an object or is missing.  A truthy \<open>summary\<close> stays truthy
  through the start of a cycle, through every completion and through every event, so
  that after a successful cycle of the live component it is never \<^verbatim>\<open>null\<close> again,
  whatever events follow.  A dashboard rendered with a truthy summary has the grid,
  and each counter of a summary object is its field, or zero when the field is absent
  (or falsy).
\<close>

theorem summary_grid_invariant:
  "summary init_ui = JNull
   \<and> (summary s = JNull \<and> App u e s = Inr (DashboardView d) \<longrightarrow>
        summary_grid d = Skipped (Some JNull))
   \<and> (try_block r = Inr p \<longrightarrow>
        truthy (summary (fetchData_resume r s)) \<and> summary (fetchData_resume r s) \<noteq> JNull)
   \<and> (try_block r = Inr p \<and> summaryRes r = Fulfilled sd \<and> (is_object sd \<or> \<not> truthy sd) \<longrightarrow>
        is_object (summary (fetchData_resume r s)))
   \<and> (truthy (summary s) \<longrightarrow>
        summary (fetchData_begin s) = summary s \<and> truthy (summary (fetchData_resume r s)))
   \<and> (truthy (summary (ui y)) \<longrightarrow>
        truthy (summary (ui (run_from y evs))) \<and> summary (ui (run_from y evs)) \<noteq> JNull)
   \<and> (phase y \<noteq> Unmounted \<and> 0 < in_flight y \<and> try_block r = Inr p \<longrightarrow>
        truthy (summary (ui (run_from (step (Settle r) y) evs)))
        \<and> summary (ui (run_from (step (Settle r) y) evs)) \<noteq> JNull)
   \<and> (truthy (summary s) \<and> App u e s = Inr (DashboardView d) \<longrightarrow>
        (\<exists>c. summary_grid d = Shown c))
   \<and> (summary s = JObj kvs \<and> App u e s = Inr (DashboardView d) \<longrightarrow>
        summary_grid d =
          Shown \<lparr>total_threats = or_else (map_of kvs (js ''total_threats'')) (JNum 0),
                 critical_threats = or_else (map_of kvs (js ''critical_threats'')) (JNum 0),
                 blocked_connections = or_else (map_of kvs (js ''blocked_connections'')) (JNum 0),
                 monitored_processes = or_else (map_of kvs (js ''monitored_processes'')) (JNum 0)\<rparr>)"
proof -
  have grid: "summary_grid d = spec_counters (summary s)"
    if "App u e s = Inr (DashboardView d)"
    using that by (rule App_grid)
  have c1: "summary init_ui = JNull"
    by (simp add: init_ui_def)
  have c2: "summary s = JNull \<and> App u e s = Inr (DashboardView d) \<longrightarrow>
        summary_grid d = Skipped (Some JNull)"
    using grid by (auto simp: spec_counters_def)
  have c3: "try_block r = Inr p \<longrightarrow>
        truthy (summary (fetchData_resume r s)) \<and> summary (fetchData_resume r s) \<noteq> JNull"
    using summary_after_success truthy_not_null by blast
  have c4: "try_block r = Inr p \<and> summaryRes r = Fulfilled sd \<and> (is_object sd \<or> \<not> truthy sd) \<longrightarrow>
        is_object (summary (fetchData_resume r s))"
  proof
    assume a: "try_block r = Inr p \<and> summaryRes r = Fulfilled sd \<and> (is_object sd \<or> \<not> truthy sd)"
    obtain t m where p: "p = (t, m)" by (cases p)
    with a obtain sd' where "summaryRes r = Fulfilled sd'" and "m = or_else (Some sd') (JObj [])"
      using try_block_summary by blast
    with a have m: "m = or_else (Some sd) (JObj [])" by simp
    from a have "is_object (or_else (Some sd) (JObj []))"
      by (cases sd) auto
    with a p m show "is_object (summary (fetchData_resume r s))"
      by (simp add: fetchData_resume_success)
  qed
  have c5: "truthy (summary s) \<longrightarrow>
        summary (fetchData_begin s) = summary s \<and> truthy (summary (fetchData_resume r s))"
    by (simp add: fetchData_begin_def summary_fetchData_resume)
  have c6: "truthy (summary (ui y)) \<longrightarrow>
        truthy (summary (ui (run_from y evs))) \<and> summary (ui (run_from y evs)) \<noteq> JNull"
    using summary_run_from truthy_not_null by blast
  have c7: "phase y \<noteq> Unmounted \<and> 0 < in_flight y \<and> try_block r = Inr p \<longrightarrow>
        truthy (summary (ui (run_from (step (Settle r) y) evs)))
        \<and> summary (ui (run_from (step (Settle r) y) evs)) \<noteq> JNull"
  proof
    assume a: "phase y \<noteq> Unmounted \<and> 0 < in_flight y \<and> try_block r = Inr p"
    then have "truthy (summary (ui (step (Settle r) y)))"
      by (simp add: set_state_def summary_after_success)
    then have "truthy (summary (ui (run_from (step (Settle r) y) evs)))"
      by (rule summary_run_from)
    then show "truthy (summary (ui (run_from (step (Settle r) y) evs)))
        \<and> summary (ui (run_from (step (Settle r) y) evs)) \<noteq> JNull"
      using truthy_not_null by blast
  qed
  have c8: "truthy (summary s) \<and> App u e s = Inr (DashboardView d) \<longrightarrow>
        (\<exists>c. summary_grid d = Shown c)"
    using grid by (auto simp: spec_counters_def)
  have c9: "summary s = JObj kvs \<and> App u e s = Inr (DashboardView d) \<longrightarrow>
        summary_grid d =
          Shown \<lparr>total_threats = or_else (map_of kvs (js ''total_threats'')) (JNum 0),
                 critical_threats = or_else (map_of kvs (js ''critical_threats'')) (JNum 0),
                 blocked_connections = or_else (map_of kvs (js ''blocked_connections'')) (JNum 0),
                 monitored_processes = or_else (map_of kvs (js ''monitored_processes'')) (JNum 0)\<rparr>"
    using grid by (auto simp: spec_counters_object)
  from c1 c2 c3 c4 c5 c6 c7 c8 c9 show ?thesis by blast
qed

lemma App_idle: "App sample_unicode sample_env idle_ui =
    Inr (DashboardView \<lparr>last_updated = js ''10:00:00 AM'', refreshing = False,
           summary_grid = Skipped (Some JNull), threat_count = Some (JNum 0),
           threat_list = NoThreatsBanner\<rparr>)"
  by (simp add: App_def idle_ui_def first_load_def render_dashboard_def render_summary_def
      render_threats_def length_is_zero_def sample_env_def)

lemma fetchData_empty_summary: "fetchData empty_summary init_ui =
    \<lparr>threats = JArr [], summary = JObj [], loading = False, error = None\<rparr>"
  by (simp add: fetchData_def fetchData_begin_def init_ui_def
      fetchData_resume_success [OF try_block_empty_summary])

lemma App_empty_summary: "App sample_unicode sample_env (fetchData empty_summary init_ui) =
    Inr (DashboardView \<lparr>last_updated = js ''10:00:00 AM'', refreshing = False,
           summary_grid = Shown \<lparr>total_threats = JNum 0, critical_threats = JNum 0,
                                 blocked_connections = JNum 0, monitored_processes = JNum 0\<rparr>,
           threat_count = Some (JNum 0), threat_list = NoThreatsBanner\<rparr>)"
  by (simp add: fetchData_empty_summary App_def first_load_def render_dashboard_def
      render_summary_def counter_def render_threats_def length_is_zero_def sample_env_def)

lemma sys_mounted: "phase (run [Mount]) = Mounted" "interval (run [Mount])"
  "in_flight (run [Mount]) = 1"
  by (simp_all add: run_def run_from_def init_sys_def start_cycle_def set_state_def)

theorem summary_grid_invariant_witness:
  "summary idle_ui = JNull
   \<and> (\<exists>d. App sample_unicode sample_env idle_ui = Inr (DashboardView d)
         \<and> summary_grid d = Skipped (Some JNull))
   \<and> try_block empty_summary = Inr (JArr [], JObj [])
   \<and> summary (fetchData_resume empty_summary init_ui) \<noteq> JNull
   \<and> is_object (summary (fetchData_resume empty_summary init_ui))
   \<and> phase (run [Mount]) \<noteq> Unmounted \<and> 0 < in_flight (run [Mount])
   \<and> summary (ui (run_from (step (Settle empty_summary) (run [Mount]))
         [Tick, Settle summary_fails])) \<noteq> JNull
   \<and> summary (fetchData empty_summary init_ui) = JObj []
   \<and> (\<exists>d. App sample_unicode sample_env (fetchData empty_summary init_ui) = Inr (DashboardView d)
         \<and> summary_grid d =
             Shown \<lparr>total_threats = JNum 0, critical_threats = JNum 0,
                    blocked_connections = JNum 0, monitored_processes = JNum 0\<rparr>)"
proof -
  have h1: "summary idle_ui = JNull"
    by (simp add: idle_ui_def)
  have h2: "summaryRes empty_summary = Fulfilled (JStr [])"
    by (simp add: empty_summary_def)
  have h3: "0 < in_flight (run [Mount])" and h5: "phase (run [Mount]) \<noteq> Unmounted"
    by (simp_all add: sys_mounted)
  have h4: "summary (fetchData empty_summary init_ui) = JObj []"
    by (simp add: fetchData_empty_summary)
  note m = summary_grid_invariant [of init_ui sample_unicode sample_env _ empty_summary
      "(JArr [], JObj [])" "JStr []" "run [Mount]" "[Tick, Settle summary_fails]"]
  from m try_block_empty_summary
  have a: "summary (fetchData_resume empty_summary init_ui) \<noteq> JNull"
    by blast
  from m try_block_empty_summary h2
  have b: "is_object (summary (fetchData_resume empty_summary init_ui))"
    by simp
  from m try_block_empty_summary h3 h5
  have c: "summary (ui (run_from (step (Settle empty_summary) (run [Mount]))
         [Tick, Settle summary_fails])) \<noteq> JNull"
    by blast
  from summary_grid_invariant [of idle_ui sample_unicode sample_env] h1 App_idle
  have d: "\<exists>d. App sample_unicode sample_env idle_ui = Inr (DashboardView d)
         \<and> summary_grid d = Skipped (Some JNull)"
    by blast
  from summary_grid_invariant [of "fetchData empty_summary init_ui" sample_unicode sample_env
      _ _ _ _ _ _ "[]"] h4 App_empty_summary
  have e: "\<exists>d. App sample_unicode sample_env (fetchData empty_summary init_ui) = Inr (DashboardView d)
         \<and> summary_grid d =
             Shown \<lparr>total_threats = JNum 0, critical_threats = JNum 0,
                    blocked_connections = JNum 0, monitored_processes = JNum 0\<rparr>"
    by simp
  from h1 d try_block_empty_summary a b h5 h3 c h4 e show ?thesis
    by blast
qed

subsection \<open>Rendering and the clock\<close>

lemma fetchData_idempotent: "fetchData r (fetchData r s) = fetchData r s"
proof (cases "try_block r")
  case (Inl err)
  then show ?thesis
    by (simp add: fetchData_def fetchData_begin_def fetchData_resume_failure)
next
  case (Inr p)
  obtain t m where "p = (t, m)" by (cases p)
  with Inr show ?thesis
    by (simp add: fetchData_def fetchData_begin_def fetchData_resume_success)
qed

lemma render_threat_locale:
  assumes "toLocaleString e1 = toLocaleString e2"
  shows "render_threat u e1 = render_threat u e2"
proof (rule ext)
  fix t
  show "render_threat u e1 t = render_threat u e2 t"
    unfolding render_threat_def formatTimestamp_def assms ..
qed

lemma render_threats_locale:
  assumes "toLocaleString e1 = toLocaleString e2"
  shows "render_threats u e1 ts = render_threats u e2 ts"
  unfolding render_threats_def render_threat_locale [OF assms] ..

lemma render_dashboard_clock:
  "render_dashboard u e s = Inr (DashboardView d) \<Longrightarrow> last_updated d = clock_text e"
  by (auto simp: render_dashboard_def split: sum.splits)

lemma render_dashboard_locale:
  assumes "toLocaleString e1 = toLocaleString e2"
    and "render_dashboard u e1 s = Inr (DashboardView d)"
  shows "render_dashboard u e2 s = Inr (DashboardView (d\<lparr>last_updated := clock_text e2\<rparr>))"
  using assms(2) unfolding render_dashboard_def render_threats_locale [OF assms(1)]
  by (auto split: sum.splits)

text \<open>
  Claim C5, as stated, does not hold: the dashboard's \<^verbatim>\<open>Last updated\<close> line is
  \<^verbatim>\<open>new Date().toLocaleTimeString()\<close>, read when \<^verbatim>\<open>App\<close> runs.  Two identical successful
  cycles leave the same state, and rendering it at two different times gives two
  different outputs.
\<close>

theorem render_reads_clock_counterexample:
  "fetchData empty_summary (fetchData empty_summary init_ui) = fetchData empty_summary init_ui
   \<and> App sample_unicode (sample_env\<lparr>clock_text := js ''10:00:00 AM''\<rparr>)
         (fetchData empty_summary init_ui)
     \<noteq> App sample_unicode (sample_env\<lparr>clock_text := js ''10:00:05 AM''\<rparr>)
         (fetchData empty_summary (fetchData empty_summary init_ui))"
  by (simp add: fetchData_idempotent)
     (simp add: fetchData_empty_summary App_def first_load_def render_dashboard_def
      render_summary_def counter_def render_threats_def length_is_zero_def sample_env_def)

text \<open>
  Claim C5, amended.  Repeating an identical fetch cycle leaves the state of the first.
  Rendering is a function of the UI state and of two readings from outside it: the
  time of rendering and the browser's date formatting.  The error view and the loading
  placeholder depend on the state alone.  A dashboard shows the time of rendering as
  \<^verbatim>\<open>Last updated\<close>, and two renderings of one state under the same date formatting
  differ in that line only; with the same two readings they are identical.
\<close>

theorem render_state_and_clock:
  "fetchData r (fetchData r s) = fetchData r s
   \<and> (error_shown (error s) \<or> first_load s = Inr True \<longrightarrow> App u e1 s = App u e2 s)
   \<and> (App u e1 s = Inr (DashboardView d) \<longrightarrow> last_updated d = clock_text e1)
   \<and> (toLocaleString e1 = toLocaleString e2 \<and> App u e1 s = Inr (DashboardView d) \<longrightarrow>
        App u e2 s = Inr (DashboardView (d\<lparr>last_updated := clock_text e2\<rparr>)))
   \<and> (clock_text e1 = clock_text e2 \<and> toLocaleString e1 = toLocaleString e2 \<longrightarrow>
        App u e1 s = App u e2 s)"
proof -
  have c2: "error_shown (error s) \<or> first_load s = Inr True \<longrightarrow> App u e1 s = App u e2 s"
    by (auto simp: App_def)
  have c3: "App u e1 s = Inr (DashboardView d) \<longrightarrow> last_updated d = clock_text e1"
    using App_dashboard render_dashboard_clock by blast
  have c4: "toLocaleString e1 = toLocaleString e2 \<and> App u e1 s = Inr (DashboardView d) \<longrightarrow>
        App u e2 s = Inr (DashboardView (d\<lparr>last_updated := clock_text e2\<rparr>))"
  proof
    assume a: "toLocaleString e1 = toLocaleString e2 \<and> App u e1 s = Inr (DashboardView d)"
    then have r: "render_dashboard u e1 s = Inr (DashboardView d)"
      by (simp add: App_dashboard)
    from a have f: "\<not> error_shown (error s)" and g: "first_load s = Inr False"
      by (auto simp: App_def split: if_splits sum.splits bool.splits)
    from render_dashboard_locale [of e1 e2 u s d] a r f g
    show "App u e2 s = Inr (DashboardView (d\<lparr>last_updated := clock_text e2\<rparr>))"
      by (simp add: App_def)
  qed
  have c5: "clock_text e1 = clock_text e2 \<and> toLocaleString e1 = toLocaleString e2 \<longrightarrow>
        App u e1 s = App u e2 s"
    by (auto simp: App_def render_dashboard_def render_threats_locale [of e1 e2]
        split: sum.splits bool.splits)
  from fetchData_idempotent c2 c3 c4 c5 show ?thesis by blast
qed

lemma fetchData_both_succeed: "fetchData both_succeed init_ui =
    \<lparr>threats = JArr [sample_threat], summary = JObj [(js ''total_threats'', JNum 1)],
     loading = False, error = None\<rparr>"
  by (simp add: fetchData_def fetchData_begin_def init_ui_def
      fetchData_resume_success [OF try_block_both_succeed])

lemma App_both_succeed:
  "App sample_unicode sample_env (fetchData both_succeed init_ui)
     = Inr (DashboardView sample_dashboard)"
proof -
  have s: "fetchData both_succeed init_ui = ui (run [Mount, Settle both_succeed])"
    by (simp add: fetchData_both_succeed run_succeeded)
  have "render_dashboard sample_unicode sample_env (fetchData both_succeed init_ui)
      = Inr (DashboardView (spec_dashboard sample_unicode sample_env (fetchData both_succeed init_ui)))"
    by (rule render_dashboard_total) (simp add: fetchData_both_succeed threat_ok_sample)
  then show ?thesis
    unfolding s spec_dashboard_succeeded
    by (simp add: App_def first_load_def run_succeeded)
qed

theorem render_state_and_clock_witness:
  "error_shown (error failed_ui)
   \<and> App sample_unicode sample_env failed_ui = App sample_unicode later_env failed_ui
   \<and> toLocaleString sample_env = toLocaleString later_env
   \<and> App sample_unicode sample_env (fetchData both_succeed init_ui)
       = Inr (DashboardView sample_dashboard)
   \<and> last_updated sample_dashboard = clock_text sample_env
   \<and> App sample_unicode later_env (fetchData both_succeed init_ui)
       = Inr (DashboardView (sample_dashboard\<lparr>last_updated := js ''10:00:05 AM''\<rparr>))
   \<and> clock_text sample_env = clock_text (sample_env\<lparr>toLocaleString := toLocaleString later_env\<rparr>)
   \<and> App sample_unicode sample_env failed_ui
       = App sample_unicode (sample_env\<lparr>toLocaleString := toLocaleString later_env\<rparr>) failed_ui"
proof -
  have h1: "error_shown (error failed_ui)"
    by (simp add: failed_ui_def)
  have h2: "toLocaleString sample_env = toLocaleString later_env"
    by (simp add: later_env_def)
  have h3: "clock_text later_env = js ''10:00:05 AM''"
    by (simp add: later_env_def)
  have h4: "clock_text sample_env = clock_text (sample_env\<lparr>toLocaleString := toLocaleString later_env\<rparr>)"
    and h5: "toLocaleString sample_env
      = toLocaleString (sample_env\<lparr>toLocaleString := toLocaleString later_env\<rparr>)"
    by (simp_all add: later_env_def)
  from render_state_and_clock [of _ failed_ui sample_unicode sample_env later_env] h1
  have a: "App sample_unicode sample_env failed_ui = App sample_unicode later_env failed_ui"
    by blast
  note m = render_state_and_clock [of _ "fetchData both_succeed init_ui" sample_unicode
      sample_env later_env sample_dashboard]
  from m App_both_succeed
  have b: "last_updated sample_dashboard = clock_text sample_env"
    by blast
  from m App_both_succeed h2
  have "App sample_unicode later_env (fetchData both_succeed init_ui)
       = Inr (DashboardView (sample_dashboard\<lparr>last_updated := clock_text later_env\<rparr>))"
    by blast
  then have c: "App sample_unicode later_env (fetchData both_succeed init_ui)
       = Inr (DashboardView (sample_dashboard\<lparr>last_updated := js ''10:00:05 AM''\<rparr>))"
    unfolding h3 .
  from render_state_and_clock [of _ failed_ui sample_unicode sample_env
      "sample_env\<lparr>toLocaleString := toLocaleString later_env\<rparr>"] h4 h5
  have d: "App sample_unicode sample_env failed_ui
      = App sample_unicode (sample_env\<lparr>toLocaleString := toLocaleString later_env\<rparr>) failed_ui"
    by blast
  from h1 a h2 App_both_succeed b c h4 d show ?thesis by blast
qed

subsection \<open>Teardown\<close>

lemma step_after_teardown:
  assumes "\<not> interval y" and "phase y = Unmounted"
  shows "\<not> interval (step ev y) \<and> phase (step ev y) = Unmounted
     \<and> in_flight (step ev y) \<le> in_flight y \<and> ui (step ev y) = ui y
     \<and> updates (step ev y) = updates y \<and> sent (step ev y) = sent y"
  using assms by (cases ev) (auto simp: set_state_def)

lemma run_after_teardown:
  "\<not> interval y \<Longrightarrow> phase y = Unmounted \<Longrightarrow>
     \<not> interval (run_from y evs) \<and> phase (run_from y evs) = Unmounted
     \<and> in_flight (run_from y evs) \<le> in_flight y \<and> ui (run_from y evs) = ui y
     \<and> updates (run_from y evs) = updates y \<and> sent (run_from y evs) = sent y"
proof (induction evs arbitrary: y)
  case Nil
  then show ?case by (simp add: run_from_Nil)
next
  case (Cons ev evs)
  from step_after_teardown [OF Cons.prems, of ev]
  have s: "\<not> interval (step ev y)" "phase (step ev y) = Unmounted"
    "in_flight (step ev y) \<le> in_flight y" "ui (step ev y) = ui y"
    "updates (step ev y) = updates y" "sent (step ev y) = sent y"
    by simp_all
  from Cons.IH [OF s(1,2)] s(3-6) show ?case
    by (simp add: run_from_Cons)
qed

lemma step_quiescent:
  "\<not> interval y \<Longrightarrow> phase y = Unmounted \<Longrightarrow> in_flight y = 0 \<Longrightarrow> step ev y = y"
  by (cases ev) auto

lemma run_quiescent:
  "\<not> interval y \<Longrightarrow> phase y = Unmounted \<Longrightarrow> in_flight y = 0 \<Longrightarrow> run_from y evs = y"
  by (induction evs) (simp_all add: run_from_Nil run_from_Cons step_quiescent)

text \<open>
  Claim C8.  Teardown of the mounted component clears the interval and changes nothing
  else.  From then on no fetch cycle is started: the interval stays cleared, a tick or
  a mount does nothing, no request is sent, and the number of fetches in flight never
  grows.  No UI state is mutated: whatever events follow, and in particular when a
  fetch that was in flight at teardown settles, \<open>threats\<close>, \<open>summary\<close>, \<open>loading\<close> and
  \<open>error\<close> are what they were at teardown, the result is dropped with the setter calls
  that carry it, and no state update is applied, so that no render is triggered.
  (The same completion before teardown does change the state; after teardown all
  that is left of it is the failure it logs to the console.)
\<close>

theorem teardown_cancels_timer:
  assumes "phase y = Mounted"
  shows "\<not> interval (step Unmount y) \<and> phase (step Unmount y) = Unmounted
    \<and> ui (step Unmount y) = ui y \<and> in_flight (step Unmount y) = in_flight y
    \<and> step Tick (step Unmount y) = step Unmount y
    \<and> step Mount (step Unmount y) = step Unmount y
    \<and> \<not> interval (run_from (step Unmount y) evs)
    \<and> in_flight (run_from (step Unmount y) evs) \<le> in_flight y
    \<and> sent (run_from (step Unmount y) evs) = sent y
    \<and> (in_flight y = 0 \<longrightarrow> run_from (step Unmount y) evs = step Unmount y)
    \<and> ui (run_from (step Unmount y) evs) = ui y
    \<and> updates (run_from (step Unmount y) evs) = updates y
    \<and> App u e (ui (run_from (step Unmount y) evs)) = App u e (ui y)
    \<and> (0 < in_flight y \<longrightarrow>
         ui (step (Settle r) (step Unmount y)) = ui y
         \<and> updates (step (Settle r) (step Unmount y)) = updates y
         \<and> in_flight (step (Settle r) (step Unmount y)) = in_flight y - 1
         \<and> console (step (Settle r) (step Unmount y)) = console y @ fetchData_logged r
         \<and> ui (step (Settle r) y) = fetchData_resume r (ui y)
         \<and> updates (step (Settle r) y) = updates y + 1)"
proof -
  have x: "step Unmount y = y\<lparr>phase := Unmounted, interval := False\<rparr>"
    using assms by simp
  have a: "\<not> interval (step Unmount y)" and b: "phase (step Unmount y) = Unmounted"
    and c: "in_flight (step Unmount y) = in_flight y" and c': "ui (step Unmount y) = ui y"
    and c'': "updates (step Unmount y) = updates y" "sent (step Unmount y) = sent y"
    unfolding x by simp_all
  from run_after_teardown [OF a b, of evs] c c' c''
  have d: "\<not> interval (run_from (step Unmount y) evs)
      \<and> in_flight (run_from (step Unmount y) evs) \<le> in_flight y
      \<and> sent (run_from (step Unmount y) evs) = sent y
      \<and> ui (run_from (step Unmount y) evs) = ui y
      \<and> updates (run_from (step Unmount y) evs) = updates y"
    by simp
  have f: "in_flight y = 0 \<longrightarrow> run_from (step Unmount y) evs = step Unmount y"
    using run_quiescent [OF a b] c by simp
  have g: "step Tick (step Unmount y) = step Unmount y
      \<and> step Mount (step Unmount y) = step Unmount y"
    unfolding x by simp
  have h: "0 < in_flight y \<longrightarrow>
         ui (step (Settle r) (step Unmount y)) = ui y
         \<and> updates (step (Settle r) (step Unmount y)) = updates y
         \<and> in_flight (step (Settle r) (step Unmount y)) = in_flight y - 1
         \<and> console (step (Settle r) (step Unmount y)) = console y @ fetchData_logged r
         \<and> ui (step (Settle r) y) = fetchData_resume r (ui y)
         \<and> updates (step (Settle r) y) = updates y + 1"
    unfolding x using assms by (simp add: set_state_def)
  from a b c c' d f g h show ?thesis by simp
qed

theorem teardown_cancels_timer_witness:
  "phase (run [Mount]) = Mounted \<and> interval (run [Mount]) \<and> 0 < in_flight (run [Mount])
   \<and> \<not> interval (step Unmount (run [Mount]))
   \<and> step Tick (step Unmount (run [Mount])) = step Unmount (run [Mount])
   \<and> \<not> interval (run_from (step Unmount (run [Mount])) [Tick, Settle both_succeed, Mount, Tick])
   \<and> in_flight (run_from (step Unmount (run [Mount])) [Tick, Settle both_succeed, Mount, Tick]) \<le> 1
   \<and> sent (run_from (step Unmount (run [Mount])) [Tick, Settle both_succeed, Mount, Tick])
       = [ThreatsRequest, SummaryRequest]
   \<and> ui (run_from (step Unmount (run [Mount])) [Tick, Settle both_succeed, Mount, Tick])
       = \<lparr>threats = JArr [], summary = JNull, loading = True, error = None\<rparr>
   \<and> updates (run_from (step Unmount (run [Mount])) [Tick, Settle both_succeed, Mount, Tick])
       = updates (run [Mount])
   \<and> ui (step (Settle both_succeed) (step Unmount (run [Mount])))
       = \<lparr>threats = JArr [], summary = JNull, loading = True, error = None\<rparr>
   \<and> ui (step (Settle both_succeed) (run [Mount]))
       = \<lparr>threats = JArr [sample_threat], summary = JObj [(js ''total_threats'', JNum 1)],
          loading = False, error = None\<rparr>"
proof -
  note h = sys_mounted
  have s: "sent (run [Mount]) = [ThreatsRequest, SummaryRequest]"
    by (simp add: run_def run_from_def init_sys_def start_cycle_def set_state_def
        fetchData_requests_def)
  have r: "fetchData_resume both_succeed
      \<lparr>threats = JArr [], summary = JNull, loading = True, error = None\<rparr>
      = \<lparr>threats = JArr [sample_threat], summary = JObj [(js ''total_threats'', JNum 1)],
          loading = False, error = None\<rparr>"
    by (simp add: fetchData_resume_success [OF try_block_both_succeed])
  from teardown_cancels_timer [OF h(1), of "[Tick, Settle both_succeed, Mount, Tick]"
      sample_unicode sample_env both_succeed] h s r
  show ?thesis by (simp add: run_mounted)
qed

end
